theory Spec2Isabelle
  imports Main "HOL-Library.Word"
begin

section \<open>QURTest: the command-line options and their parser\<close>

text \<open>
  The development follows \<^verbatim>\<open>src/main.cpp\<close>. Machine integers are words of the
  width they have on an LP64 platform: \<^verbatim>\<open>size_t\<close> and \<^verbatim>\<open>unsigned long\<close> are 64 bits,
  \<^verbatim>\<open>int\<close> is 32 bits (read with \<open>sint\<close>). Assertions are enabled (\<^verbatim>\<open>NDEBUG\<close> is not
  defined anywhere in the source).
\<close>

type_synonym size_t = "64 word"
type_synonym c_int = "32 word"

subsection \<open>struct CommandLineArguments (lines 40-56)\<close>

record CommandLineArguments =
  isSinglePart :: bool
  messageLength :: size_t
  maxFragmentLength :: size_t
  numExtraParts :: size_t
  qrSize :: c_int
  lifeHashImageSize :: c_int
  fps :: c_int

text \<open>The default member initialisers of the struct.\<close>

definition default_CommandLineArguments :: CommandLineArguments where
  "default_CommandLineArguments =
     \<lparr> isSinglePart = True,
       messageLength = 100,
       maxFragmentLength = 100,
       numExtraParts = 0,
       qrSize = 256,
       lifeHashImageSize = 128,
       fps = 4 \<rparr>"

subsection \<open>Ways in which a call does not return\<close>

text \<open>
  \<^item> \<open>AssertionFailed msg\<close>: an \<^verbatim>\<open>assert\<close> of the source failed (the process aborts);
    \<open>msg\<close> is the string literal of the assertion.
  \<^item> \<open>Exited status err\<close>: \<^verbatim>\<open>exit(status)\<close> was called after the lines \<open>err\<close> were
    written to \<^verbatim>\<open>std::cerr\<close>.
  \<^item> \<open>Uncaught e\<close>: \<^verbatim>\<open>std::stoul\<close> threw \<open>e\<close>; nothing in the program catches it.
  \<^item> \<open>StringFromNull\<close>: \<^verbatim>\<open>std::string\<close> was constructed from the null pointer
    \<^verbatim>\<open>argv[argc]\<close> (undefined behaviour; no assertion of the program is involved).
\<close>

datatype exception = invalid_argument | out_of_range

datatype stop =
    AssertionFailed string
  | Exited int "string list"
  | Uncaught exception
  | StringFromNull

type_synonym 'a outcome = "stop + 'a"

abbreviation Returned :: "'a \<Rightarrow> 'a outcome" where
  "Returned \<equiv> Inr"

abbreviation Stopped :: "stop \<Rightarrow> 'a outcome" where
  "Stopped \<equiv> Inl"

subsection \<open>std::stoul with its default base 10\<close>

text \<open>
  \<^verbatim>\<open>std::stoul(str)\<close> is \<^verbatim>\<open>strtoul\<close> in base 10: leading white space of the C locale
  is skipped, one optional sign is read, then the longest run of decimal digits.
  No digit gives \<^verbatim>\<open>std::invalid_argument\<close>; a magnitude above \<^verbatim>\<open>ULONG_MAX\<close> gives
  \<^verbatim>\<open>std::out_of_range\<close>; a minus sign negates the value in \<^verbatim>\<open>unsigned long\<close>; whatever
  follows the digits is ignored.
\<close>

definition isspace :: "char \<Rightarrow> bool" where
  "isspace c = (c = CHR '' '' \<or> (9::nat) \<le> of_char c \<and> of_char c \<le> (13::nat))"

definition isdigit :: "char \<Rightarrow> bool" where
  "isdigit c = ((48::nat) \<le> of_char c \<and> of_char c \<le> (57::nat))"

definition digit_value :: "char \<Rightarrow> nat" where
  "digit_value c = of_char c - 48"

definition decimal_value :: "string \<Rightarrow> nat" where
  "decimal_value ds = foldl (\<lambda>a c. 10 * a + digit_value c) 0 ds"

definition stoul :: "string \<Rightarrow> exception + size_t" where
  "stoul str =
     (let s = dropWhile isspace str;
          negative = (case s of [] \<Rightarrow> False | c # _ \<Rightarrow> c = CHR ''-'');
          s' = (case s of [] \<Rightarrow> [] | c # cs \<Rightarrow> if c = CHR ''-'' \<or> c = CHR ''+'' then cs else s);
          ds = takeWhile isdigit s'
      in if ds = [] then Inl invalid_argument
         else if 2 ^ 64 \<le> decimal_value ds then Inl out_of_range
         else Inr (if negative then - word_of_nat (decimal_value ds)
                   else word_of_nat (decimal_value ds)))"

subsection \<open>ParseCommandLineArguments (lines 64-128)\<close>

text \<open>
  \<open>argv\<close> is the list \<^verbatim>\<open>argv[0], ..., argv[argc - 1]\<close>, so \<^verbatim>\<open>argc\<close> is its length;
  \<^verbatim>\<open>argv[argc]\<close> is the null pointer, which \<open>argv_at\<close> returns as \<open>None\<close>.
\<close>

definition argv_at :: "string list \<Rightarrow> nat \<Rightarrow> string option" where
  "argv_at argv i = (if i < length argv then Some (argv ! i) else None)"

text \<open>
  The two statements every value-taking flag starts with, at loop index \<open>i\<close>:
  \<^verbatim>\<open>assert(i+1 <= argc && "Value expected.");\<close> and then
  \<^verbatim>\<open>stoul(std::string(argv[++i]))\<close>.
\<close>

definition read_value :: "string list \<Rightarrow> nat \<Rightarrow> size_t outcome" where
  "read_value argv i =
     (if \<not> (i + 1 \<le> length argv) then Stopped (AssertionFailed ''Value expected.'')
      else case argv_at argv (i + 1) of
             None \<Rightarrow> Stopped StringFromNull
           | Some s \<Rightarrow> (case stoul s of
                          Inl e \<Rightarrow> Stopped (Uncaught e)
                        | Inr v \<Rightarrow> Returned v))"

text \<open>The lines written to \<^verbatim>\<open>std::cerr\<close> by the \<^verbatim>\<open>-h\<close> branch.\<close>

definition usage :: "string list" where
  "usage =
     [ ''Usage: ./qurtest [OPTION]...'',
       CHR 0x09 # ''-h'' @ CHR 0x09 # ''Print help and exist.'',
       CHR 0x09 # ''-m'' @ CHR 0x09 # ''Generate multi-part UR (default=false).'',
       CHR 0x09 # ''-l <value>'' @ CHR 0x09 # ''Byte length of the generated data (default=100).'',
       CHR 0x09 # ''-f <value>'' @ CHR 0x09 #
         ''Byte length of a single data fragment in a multi-part UR (default=100).'',
       CHR 0x09 # ''-e <value>'' @ CHR 0x09 # ''Number of extra parts in a multi-part UR (default=0).'',
       CHR 0x09 # ''-s <value>'' @ CHR 0x09 # ''Size of the generated QR image (default=256px).'',
       CHR 0x09 # ''-t <value>'' @ CHR 0x09 #
         ''Number of FPS for multi-part QUR visualization.  (default=4).'' ]"

text \<open>
  The \<^verbatim>\<open>for\<close> loop, from index \<open>i\<close> with the record built so far. A value-taking flag
  advances \<open>i\<close> twice (\<^verbatim>\<open>++i\<close> in the body, \<^verbatim>\<open>++i\<close> of the loop). The assignments to
  the \<^verbatim>\<open>int\<close> fields \<open>qrSize\<close> and \<open>fps\<close> narrow the \<^verbatim>\<open>unsigned long\<close> to 32 bits.
\<close>

function parse_loop ::
  "string list \<Rightarrow> nat \<Rightarrow> CommandLineArguments \<Rightarrow> CommandLineArguments outcome" where
  "parse_loop argv i result =
     (if i < length argv then
        (let arg = argv ! i in
         if arg = ''-m'' then
           parse_loop argv (i + 1) (result\<lparr>isSinglePart := False\<rparr>)
         else if arg = ''-l'' then
           (case read_value argv i of
              Inl s \<Rightarrow> Stopped s
            | Inr v \<Rightarrow> parse_loop argv (i + 2) (result\<lparr>messageLength := v\<rparr>))
         else if arg = ''-f'' then
           (case read_value argv i of
              Inl s \<Rightarrow> Stopped s
            | Inr v \<Rightarrow> parse_loop argv (i + 2) (result\<lparr>maxFragmentLength := v\<rparr>))
         else if arg = ''-e'' then
           (case read_value argv i of
              Inl s \<Rightarrow> Stopped s
            | Inr v \<Rightarrow> parse_loop argv (i + 2) (result\<lparr>numExtraParts := v\<rparr>))
         else if arg = ''-h'' then
           Stopped (Exited 0 usage)
         else if arg = ''-s'' then
           (case read_value argv i of
              Inl s \<Rightarrow> Stopped s
            | Inr v \<Rightarrow> parse_loop argv (i + 2) (result\<lparr>qrSize := ucast v\<rparr>))
         else if arg = ''-t'' then
           (case read_value argv i of
              Inl s \<Rightarrow> Stopped s
            | Inr v \<Rightarrow> parse_loop argv (i + 2) (result\<lparr>fps := ucast v\<rparr>))
         else
           Stopped (AssertionFailed ''Unexpected command line argument''))
      else Returned result)"
  by pat_completeness auto
termination
  by (relation "measure (\<lambda>(argv, i, result). length argv - i)") auto

declare parse_loop.simps [simp del]

definition MAX_LENGTH :: size_t where
  "MAX_LENGTH = 2956 div 2 - 13"

text \<open>The two assertions after the loop (lines 117-125).\<close>

definition range_checks :: "CommandLineArguments \<Rightarrow> CommandLineArguments outcome" where
  "range_checks result =
     (if isSinglePart result then
        (if messageLength result \<le> MAX_LENGTH then Returned result
         else Stopped (AssertionFailed ''Message too long for single part UR''))
      else
        (if messageLength result \<ge> maxFragmentLength result
            \<and> maxFragmentLength result \<le> MAX_LENGTH then Returned result
         else Stopped (AssertionFailed ''Fragment too long'')))"

definition ParseCommandLineArguments :: "string list \<Rightarrow> CommandLineArguments outcome" where
  "ParseCommandLineArguments argv =
     (case parse_loop argv 1 default_CommandLineArguments of
        Inl s \<Rightarrow> Stopped s
      | Inr result \<Rightarrow> range_checks result)"

section \<open>UR encoding (lines 159-181 and 211-218)\<close>

text \<open>
  The bc-ur library is external. The four operations the program uses are taken as a
  parameter: the static \<^verbatim>\<open>ur::UREncoder::encode\<close>, the constructor
  \<^verbatim>\<open>ur::UREncoder(message, maxFragmentLen)\<close>, the const member \<^verbatim>\<open>seq_len()\<close> and the
  member \<^verbatim>\<open>next_part()\<close>, which changes the encoder and is therefore a function to
  the part and the new encoder state.
\<close>

record ('ur, 'enc) ur_library =
  encode :: "'ur \<Rightarrow> string"
  UREncoder :: "'ur \<Rightarrow> size_t \<Rightarrow> 'enc"
  seq_len :: "'enc \<Rightarrow> size_t"
  next_part :: "'enc \<Rightarrow> string \<times> 'enc"

definition GenerateSinglePartUr :: "('ur, 'enc) ur_library \<Rightarrow> 'ur \<Rightarrow> string" where
  "GenerateSinglePartUr lib message = encode lib message"

text \<open>
  The \<^verbatim>\<open>for\<close> loop of \<open>GenerateMultiPartUr\<close>. The bound
  \<^verbatim>\<open>encoder.seq_len() + numExtraParts\<close> is evaluated at every iteration, in \<^verbatim>\<open>size_t\<close>
  arithmetic; the counter \<open>i\<close> is a \<^verbatim>\<open>size_t\<close> too. The parameter
  \<^verbatim>\<open>numExtraParts\<close> is written \<open>numExtra\<close>, the longer name being the selector of the
  options record.
\<close>

function GenerateMultiPartUr_loop ::
  "('ur, 'enc) ur_library \<Rightarrow> size_t \<Rightarrow> 'enc \<Rightarrow> size_t \<Rightarrow> string list \<Rightarrow> string list" where
  "GenerateMultiPartUr_loop lib numExtra encoder i result =
     (if i < seq_len lib encoder + numExtra then
        (case next_part lib encoder of
           (part, encoder') \<Rightarrow>
             GenerateMultiPartUr_loop lib numExtra encoder' (i + 1) (result @ [part]))
      else result)"
  by pat_completeness auto
termination
proof (relation "measure (\<lambda>(lib, numExtra, encoder, i, result). 2 ^ 64 - unat i)")
  show "wf (measure (\<lambda>(lib :: ('a, 'b) ur_library, numExtra :: size_t, encoder :: 'b,
                        i :: size_t, result :: string list). 2 ^ 64 - unat i))"
    by simp
next
  fix lib :: "('a, 'b) ur_library" and numExtra i :: size_t and encoder encoder' :: 'b
    and result :: "string list" and x part
  assume less: "i < seq_len lib encoder + numExtra"
  have "unat i < unat (seq_len lib encoder + numExtra)"
    using less by (simp add: word_less_nat_alt)
  moreover have "unat (seq_len lib encoder + numExtra) < 2 ^ 64"
    using unsigned_less [of "seq_len lib encoder + numExtra"] by simp
  ultimately have room: "unat i + 1 < 2 ^ 64" by linarith
  then have "unat (i + 1) = unat i + 1"
    by (simp add: unat_word_ariths)
  then show "((lib, numExtra, encoder', i + 1, result @ [part]),
              (lib, numExtra, encoder, i, result))
             \<in> measure (\<lambda>(lib, numExtra, encoder, i, result). 2 ^ 64 - unat i)"
    using room by simp
qed

declare GenerateMultiPartUr_loop.simps [simp del]

definition GenerateMultiPartUr ::
  "('ur, 'enc) ur_library \<Rightarrow> 'ur \<Rightarrow> size_t \<Rightarrow> size_t \<Rightarrow> string list" where
  "GenerateMultiPartUr lib message maxFragmentLen numExtra =
     GenerateMultiPartUr_loop lib numExtra (UREncoder lib message maxFragmentLen) 0 []"

definition CreateUrs ::
  "('ur, 'enc) ur_library \<Rightarrow> 'ur \<Rightarrow> CommandLineArguments \<Rightarrow> string list" where
  "CreateUrs lib message args =
     (if isSinglePart args then [GenerateSinglePartUr lib message]
      else GenerateMultiPartUr lib message (maxFragmentLength args) (numExtraParts args))"

text \<open>
  The specification's description of the result, to compare the loop with: the parts
  of \<open>n\<close> successive calls of \<^verbatim>\<open>next_part()\<close>, each on the encoder the previous call
  left, in the order they are produced.
\<close>

fun next_parts :: "('ur, 'enc) ur_library \<Rightarrow> 'enc \<Rightarrow> nat \<Rightarrow> string list" where
  "next_parts lib encoder 0 = []"
| "next_parts lib encoder (Suc n) =
     (case next_part lib encoder of (part, encoder') \<Rightarrow> part # next_parts lib encoder' n)"

text \<open>
  A small encoder to run the definitions on: one fragment per byte of the message and
  one more, a fragment count that \<^verbatim>\<open>next_part()\<close> leaves alone, and parts that differ
  by their sequence number.
\<close>

definition counting_library :: "(string, string \<times> nat) ur_library" where
  "counting_library =
     \<lparr> encode = (\<lambda>message. ''ur:bytes/'' @ message),
       UREncoder = (\<lambda>message maxFragmentLen. (message, 0)),
       seq_len = (\<lambda>(message, k). word_of_nat (length message) + 1),
       next_part = (\<lambda>(message, k).
                      (''ur:bytes/'' @ replicate (Suc k) CHR ''a'', (message, Suc k))) \<rparr>"

section \<open>The display loop of Present (lines 275-280)\<close>

text \<open>
  \<^verbatim>\<open>cv::waitKey\<close> blocks until a key is pressed or the delay has passed and returns the
  key code, or -1. The environment is the list \<open>keys\<close> of the values the successive
  calls return; the delay \<^verbatim>\<open>1000.0 / fps\<close> only decides how long a call blocks and is
  not part of the model. The counter \<open>i\<close> is an \<^verbatim>\<open>int\<close>: a value of type \<open>int\<close> with
  the conversions of \<^verbatim>\<open>i = (++i) % images.size()\<close> written out (to \<^verbatim>\<open>size_t\<close> for the
  remainder, back to \<^verbatim>\<open>int\<close> for the assignment).
\<close>

definition int_to_size_t :: "int \<Rightarrow> int" where
  "int_to_size_t x = x mod 2 ^ 64"

definition size_t_to_int :: "int \<Rightarrow> int" where
  "size_t_to_int x = (x + 2 ^ 31) mod 2 ^ 32 - 2 ^ 31"

definition INT_MAX :: int where
  "INT_MAX = 2 ^ 31 - 1"

text \<open>
  \<^item> \<open>Quit i shown\<close>: \<^verbatim>\<open>waitKey\<close> returned 27 and the loop ended; \<open>shown\<close> are the
    images passed to \<^verbatim>\<open>imshow\<close>, in order.
  \<^item> \<open>Blocked i shown\<close>: every key code of the list is consumed and the loop is in
    \<^verbatim>\<open>waitKey\<close> again.
  \<^item> \<open>Fault f\<close>: undefined behaviour: \<^verbatim>\<open>images[i]\<close> outside the vector, a signed
    overflow of \<^verbatim>\<open>++i\<close>, or a remainder by an empty vector's size.
\<close>

datatype fault = IndexOutOfRange | SignedOverflow | DivisionByZero

datatype 'img display = Quit int "'img list" | Blocked int "'img list" | Fault fault

fun Present_loop :: "'img list \<Rightarrow> int list \<Rightarrow> int \<Rightarrow> 'img list \<Rightarrow> 'img display" where
  "Present_loop images [] i shown = Blocked i shown"
| "Present_loop images (key # keys) i shown =
     (if key \<noteq> 27 then
        (if \<not> int_to_size_t i < int (length images) then Fault IndexOutOfRange
         else if i = INT_MAX then Fault SignedOverflow
         else if length images = 0 then Fault DivisionByZero
         else Present_loop images keys
                (size_t_to_int (int_to_size_t (i + 1) mod int (length images)))
                (shown @ [images ! nat (int_to_size_t i)]))
      else Quit i shown)"

section \<open>The functions between the parser and the display loop, and main\<close>

text \<open>
  What \<open>main\<close> (lines 284-299) does after parsing is a sequence of calls into bc-ur,
  LifeHash, libqrencode and OpenCV. A run is modelled by threading the list of the
  calls made so far through every function of the file: a function takes the list
  and returns it extended by the calls it made, together with its result or the
  reason why it did not return. Each recorded call carries the arguments it was given,
  so the list shows both the order of the calls and which result was passed where.
\<close>

type_synonym bytes = string

text \<open>
  \<^item> \<open>ParserStopped s\<close>: \<open>ParseCommandLineArguments\<close> did not return.
  \<^item> \<open>LibraryCallFailed\<close>: a library call did not return a result (an exception that
    nothing catches, for instance when the requested vector cannot be allocated).
  \<^item> \<open>NullQRcode\<close>: \<^verbatim>\<open>QRcode_encodeString8bit\<close> returned the null pointer, which line
    234 dereferences.
\<close>

datatype failure = ParserStopped stop | LibraryCallFailed | NullQRcode

text \<open>
  The libraries, as a parameter. \<open>None\<close> is a call that does not return a result.
  \<^item> \<open>next_data len\<close>: \<^verbatim>\<open>ur::Xoshiro256(time(nullptr)).next_data(len)\<close>;
  \<^item> \<open>encodeBytes message\<close>: \<^verbatim>\<open>ur::CborLite::encodeBytes\<close> into an empty vector;
  \<^item> \<open>new_UR type cbor\<close>: the constructor \<^verbatim>\<open>ur::UR(type, cbor)\<close>, and \<open>cbor\<close> the
    accessor \<^verbatim>\<open>message.cbor()\<close>;
  \<^item> \<open>make_from_data\<close>: \<^verbatim>\<open>LifeHash::make_from_data\<close>;
  \<^item> \<open>lifehash_image lifeHash size\<close>: the \<^verbatim>\<open>cv::Mat\<close> of lines 192-201, filled from the
    colours of \<open>lifeHash\<close> and resized to \<open>size\<close>;
  \<^item> \<open>QRcode_encodeString8bit ur\<close>: the call of line 229, \<open>None\<close> for the null pointer;
  \<^item> \<open>qrcode_image qur size\<close>: the \<^verbatim>\<open>cv::Mat\<close> of lines 234-243, filled from the
    modules of \<open>qur\<close>, resized to \<open>size\<close> and converted to three channels;
  \<^item> \<open>cols\<close>: the member \<^verbatim>\<open>cols\<close> of a \<^verbatim>\<open>cv::Mat\<close>;
  \<^item> \<open>composite width lifeHashImage qurImage\<close>: the white image of lines 266-272 with
    both images copied into it.
\<close>

record ('ur, 'lh, 'qr, 'img) libraries =
  next_data :: "size_t \<Rightarrow> bytes option"
  encodeBytes :: "bytes \<Rightarrow> bytes option"
  new_UR :: "string \<Rightarrow> bytes \<Rightarrow> 'ur option"
  cbor :: "'ur \<Rightarrow> bytes"
  make_from_data :: "bytes \<Rightarrow> 'lh option"
  lifehash_image :: "'lh \<Rightarrow> c_int \<Rightarrow> 'img option"
  QRcode_encodeString8bit :: "string \<Rightarrow> 'qr option"
  qrcode_image :: "'qr \<Rightarrow> c_int \<Rightarrow> 'img option"
  cols :: "'img \<Rightarrow> int"
  composite :: "int \<Rightarrow> 'img \<Rightarrow> 'img \<Rightarrow> 'img option"

text \<open>
  The recorded calls. \<open>Parse\<close> is the call of \<open>ParseCommandLineArguments\<close>;
  \<open>Encode_UR message single maxFragmentLength numExtraParts\<close> is the call of
  \<open>CreateUrs\<close>, whose calls into the encoder are not recorded one by one;
  \<open>Animate images fps\<close> is the display loop on the composed images.
\<close>

datatype ('ur, 'lh, 'qr, 'img) event =
    Parse "string list"
  | Next_data size_t
  | EncodeBytes bytes
  | New_UR string bytes
  | Make_from_data bytes
  | Lifehash_image 'lh c_int
  | Encode_UR 'ur bool size_t size_t
  | QRcode_encode string
  | Qrcode_image 'qr c_int
  | Composite int 'img 'img
  | Animate "'img list" c_int

text \<open>
  A function that extends the list of calls: \<open>yield\<close> returns a value, \<open>fail\<close> does not
  return, \<open>call\<close> records a library call and returns its result if there is one,
  \<open>and_then\<close> is the sequence of two statements, the second not being reached when the
  first does not return, and \<open>for_each\<close> is a loop over a vector that collects the
  results.
\<close>

type_synonym ('e, 'a) run = "'e list \<Rightarrow> (failure + 'a) \<times> 'e list"

definition yield :: "'a \<Rightarrow> ('e, 'a) run" where
  "yield x log = (Inr x, log)"

definition fail :: "failure \<Rightarrow> ('e, 'a) run" where
  "fail f log = (Inl f, log)"

definition call :: "'e \<Rightarrow> 'a option \<Rightarrow> ('e, 'a) run" where
  "call e r log =
     (case r of None \<Rightarrow> (Inl LibraryCallFailed, log @ [e]) | Some x \<Rightarrow> (Inr x, log @ [e]))"

definition and_then :: "('e, 'a) run \<Rightarrow> ('a \<Rightarrow> ('e, 'b) run) \<Rightarrow> ('e, 'b) run" where
  "and_then m f log =
     (case m log of (Inl x, log') \<Rightarrow> (Inl x, log') | (Inr a, log') \<Rightarrow> f a log')"

primrec for_each :: "('a \<Rightarrow> ('e, 'b) run) \<Rightarrow> 'a list \<Rightarrow> ('e, 'b list) run" where
  "for_each f [] = yield []"
| "for_each f (x # xs) =
     and_then (f x) (\<lambda>y. and_then (for_each f xs) (\<lambda>ys. yield (y # ys)))"

text \<open>The functions of the file, in the order of the source.\<close>

definition ParseCommandLineArguments_run ::
  "string list \<Rightarrow> (('ur, 'lh, 'qr, 'img) event, CommandLineArguments) run" where
  "ParseCommandLineArguments_run argv log =
     (case ParseCommandLineArguments argv of
        Inl s \<Rightarrow> (Inl (ParserStopped s), log @ [Parse argv])
      | Inr args \<Rightarrow> (Inr args, log @ [Parse argv]))"

definition MakeMessage ::
  "('ur, 'lh, 'qr, 'img) libraries \<Rightarrow> size_t \<Rightarrow> (('ur, 'lh, 'qr, 'img) event, bytes) run" where
  "MakeMessage env len = call (Next_data len) (next_data env len)"

definition MakeMessageUr ::
  "('ur, 'lh, 'qr, 'img) libraries \<Rightarrow> size_t \<Rightarrow> (('ur, 'lh, 'qr, 'img) event, 'ur) run" where
  "MakeMessageUr env len =
     and_then (MakeMessage env len) (\<lambda>message.
     and_then (call (EncodeBytes message) (encodeBytes env message)) (\<lambda>cbor_bytes.
     call (New_UR ''bytes'' cbor_bytes) (new_UR env ''bytes'' cbor_bytes)))"

definition CreateLifeHashImage ::
  "('ur, 'lh, 'qr, 'img) libraries \<Rightarrow> 'ur \<Rightarrow> c_int \<Rightarrow> (('ur, 'lh, 'qr, 'img) event, 'img) run" where
  "CreateLifeHashImage env message imageSize =
     and_then (call (Make_from_data (cbor env message)) (make_from_data env (cbor env message)))
       (\<lambda>lifeHash.
     call (Lifehash_image lifeHash imageSize) (lifehash_image env lifeHash imageSize))"

text \<open>
  \<open>CreateUrs\<close> (lines 211-218) is the function defined above; here its call is
  recorded.
\<close>

definition CreateUrs_run ::
  "('ur, 'enc) ur_library \<Rightarrow> 'ur \<Rightarrow> CommandLineArguments
     \<Rightarrow> (('ur, 'lh, 'qr, 'img) event, string list) run" where
  "CreateUrs_run lib message args =
     call (Encode_UR message (isSinglePart args) (maxFragmentLength args) (numExtraParts args))
       (Some (CreateUrs lib message args))"

text \<open>
  \<open>CreateQurImages\<close> (lines 226-247): first every string is encoded
  (\<^verbatim>\<open>std::transform\<close>), then an image is made from every \<^verbatim>\<open>QRcode\<close>.
\<close>

definition CreateQurImages ::
  "('ur, 'lh, 'qr, 'img) libraries \<Rightarrow> string list \<Rightarrow> c_int
     \<Rightarrow> (('ur, 'lh, 'qr, 'img) event, 'img list) run" where
  "CreateQurImages env urs imageSize =
     and_then (for_each (\<lambda>ur. call (QRcode_encode ur) (Some (QRcode_encodeString8bit env ur))) urs)
       (\<lambda>qurs.
     for_each (\<lambda>qur. case qur of
                 None \<Rightarrow> fail NullQRcode
               | Some q \<Rightarrow> call (Qrcode_image q imageSize) (qrcode_image env q imageSize)) qurs)"

text \<open>
  \<open>Present\<close> (lines 254-282): the width is the largest \<^verbatim>\<open>cols\<close> of all images, one
  composed image is made for every QR image, and the display loop runs on the
  composed images with the key codes \<open>keys\<close>. The parameter \<^verbatim>\<open>fps\<close> is written
  \<open>rate\<close>, \<open>fps\<close> being the selector of the options record.
\<close>

definition Present ::
  "('ur, 'lh, 'qr, 'img) libraries \<Rightarrow> 'img \<Rightarrow> 'img list \<Rightarrow> c_int \<Rightarrow> int list
     \<Rightarrow> (('ur, 'lh, 'qr, 'img) event, 'img display) run" where
  "Present env lifeHashImage qurImages rate keys =
     (let width = foldl (\<lambda>w img. max (cols env img) w) (cols env lifeHashImage) qurImages in
      and_then (for_each (\<lambda>qurImage. call (Composite width lifeHashImage qurImage)
                                        (composite env width lifeHashImage qurImage)) qurImages)
        (\<lambda>images.
      call (Animate images rate) (Some (Present_loop images keys 0 []))))"

text \<open>\<open>main\<close> (lines 284-299), started with no call made.\<close>

definition main ::
  "('ur, 'lh, 'qr, 'img) libraries \<Rightarrow> ('ur, 'enc) ur_library \<Rightarrow> string list \<Rightarrow> int list
     \<Rightarrow> (failure + 'img display) \<times> ('ur, 'lh, 'qr, 'img) event list" where
  "main env lib argv keys =
     and_then (ParseCommandLineArguments_run argv) (\<lambda>args.
     and_then (MakeMessageUr env (messageLength args)) (\<lambda>message.
     and_then (CreateLifeHashImage env message (lifeHashImageSize args)) (\<lambda>lifeHashImage.
     and_then (CreateUrs_run lib message args) (\<lambda>urs.
     and_then (CreateQurImages env urs (qrSize args)) (\<lambda>qurImages.
     Present env lifeHashImage qurImages (fps args) keys))))) []"

text \<open>
  Small libraries to run the definitions on: the message is \<open>len\<close> bytes \<open>m\<close>, its
  CBOR encoding puts one byte in front, a UR is its CBOR bytes, an image is its width
  and a description, and a composed image is 20 pixels wider than the width it is
  given.
\<close>

definition plain_libraries :: "(string, bytes, string, int \<times> string) libraries" where
  "plain_libraries =
     \<lparr> next_data = (\<lambda>len. Some (replicate (unat len) CHR ''m'')),
       encodeBytes = (\<lambda>message. Some (CHR ''#'' # message)),
       new_UR = (\<lambda>type cbor_bytes. Some cbor_bytes),
       cbor = (\<lambda>message. message),
       make_from_data = (\<lambda>data. Some data),
       lifehash_image = (\<lambda>lifeHash imageSize. Some (sint imageSize, ''lifehash of '' @ lifeHash)),
       QRcode_encodeString8bit = (\<lambda>ur. Some ur),
       qrcode_image = (\<lambda>qur imageSize. Some (sint imageSize, ''qr of '' @ qur)),
       cols = fst,
       composite = (\<lambda>width lifeHashImage qurImage.
                      Some (2 * 10 + width, snd lifeHashImage @ '' over '' @ snd qurImage)) \<rparr>"

section \<open>Properties\<close>

subsection \<open>The parsing loop, branch by branch\<close>

lemma parse_loop_end: "\<not> i < length argv \<Longrightarrow> parse_loop argv i r = Returned r"
  by (subst parse_loop.simps) simp

lemma parse_loop_m:
  "i < length argv \<Longrightarrow> argv ! i = ''-m'' \<Longrightarrow>
     parse_loop argv i r = parse_loop argv (i + 1) (r\<lparr>isSinglePart := False\<rparr>)"
  by (subst parse_loop.simps) simp

lemma parse_loop_h:
  "i < length argv \<Longrightarrow> argv ! i = ''-h'' \<Longrightarrow> parse_loop argv i r = Stopped (Exited 0 usage)"
  by (subst parse_loop.simps) simp

lemma parse_loop_l:
  "i < length argv \<Longrightarrow> argv ! i = ''-l'' \<Longrightarrow>
     parse_loop argv i r =
       (case read_value argv i of Inl s \<Rightarrow> Stopped s
        | Inr v \<Rightarrow> parse_loop argv (i + 2) (r\<lparr>messageLength := v\<rparr>))"
  by (subst parse_loop.simps) simp

lemma parse_loop_f:
  "i < length argv \<Longrightarrow> argv ! i = ''-f'' \<Longrightarrow>
     parse_loop argv i r =
       (case read_value argv i of Inl s \<Rightarrow> Stopped s
        | Inr v \<Rightarrow> parse_loop argv (i + 2) (r\<lparr>maxFragmentLength := v\<rparr>))"
  by (subst parse_loop.simps) simp

lemma parse_loop_e:
  "i < length argv \<Longrightarrow> argv ! i = ''-e'' \<Longrightarrow>
     parse_loop argv i r =
       (case read_value argv i of Inl s \<Rightarrow> Stopped s
        | Inr v \<Rightarrow> parse_loop argv (i + 2) (r\<lparr>numExtraParts := v\<rparr>))"
  by (subst parse_loop.simps) simp

lemma parse_loop_s:
  "i < length argv \<Longrightarrow> argv ! i = ''-s'' \<Longrightarrow>
     parse_loop argv i r =
       (case read_value argv i of Inl s \<Rightarrow> Stopped s
        | Inr v \<Rightarrow> parse_loop argv (i + 2) (r\<lparr>qrSize := ucast v\<rparr>))"
  by (subst parse_loop.simps) simp

lemma parse_loop_t:
  "i < length argv \<Longrightarrow> argv ! i = ''-t'' \<Longrightarrow>
     parse_loop argv i r =
       (case read_value argv i of Inl s \<Rightarrow> Stopped s
        | Inr v \<Rightarrow> parse_loop argv (i + 2) (r\<lparr>fps := ucast v\<rparr>))"
  by (subst parse_loop.simps) simp

lemma parse_loop_unexpected:
  "i < length argv \<Longrightarrow> argv ! i \<notin> {''-m'', ''-l'', ''-f'', ''-e'', ''-h'', ''-s'', ''-t''} \<Longrightarrow>
     parse_loop argv i r = Stopped (AssertionFailed ''Unexpected command line argument'')"
  by (subst parse_loop.simps) simp

lemma parse_loop_ReturnedE:
  assumes ret: "parse_loop argv i r = Returned r'"
  obtains
    (finished) "\<not> i < length argv" "r' = r"
  | (m) "i < length argv" "argv ! i = ''-m''"
        "parse_loop argv (i + 1) (r\<lparr>isSinglePart := False\<rparr>) = Returned r'"
  | (l) v where "i < length argv" "argv ! i = ''-l''" "read_value argv i = Returned v"
        "parse_loop argv (i + 2) (r\<lparr>messageLength := v\<rparr>) = Returned r'"
  | (f) v where "i < length argv" "argv ! i = ''-f''" "read_value argv i = Returned v"
        "parse_loop argv (i + 2) (r\<lparr>maxFragmentLength := v\<rparr>) = Returned r'"
  | (e) v where "i < length argv" "argv ! i = ''-e''" "read_value argv i = Returned v"
        "parse_loop argv (i + 2) (r\<lparr>numExtraParts := v\<rparr>) = Returned r'"
  | (s) v where "i < length argv" "argv ! i = ''-s''" "read_value argv i = Returned v"
        "parse_loop argv (i + 2) (r\<lparr>qrSize := ucast v\<rparr>) = Returned r'"
  | (t) v where "i < length argv" "argv ! i = ''-t''" "read_value argv i = Returned v"
        "parse_loop argv (i + 2) (r\<lparr>fps := ucast v\<rparr>) = Returned r'"
proof (cases "i < length argv")
  case False
  with ret have "r' = r" by (simp add: parse_loop_end)
  with False show thesis by (rule finished)
next
  case inside: True
  consider "argv ! i = ''-m''" | "argv ! i = ''-l''" | "argv ! i = ''-f''"
    | "argv ! i = ''-e''" | "argv ! i = ''-h''" | "argv ! i = ''-s''" | "argv ! i = ''-t''"
    | "argv ! i \<notin> {''-m'', ''-l'', ''-f'', ''-e'', ''-h'', ''-s'', ''-t''}"
    by blast
  then show thesis
  proof cases
    case 1
    with inside ret show thesis by (intro m) (simp_all add: parse_loop_m)
  next
    case 2
    with inside ret show thesis
      by (cases "read_value argv i") (auto simp: parse_loop_l intro: l)
  next
    case 3
    with inside ret show thesis
      by (cases "read_value argv i") (auto simp: parse_loop_f intro: f)
  next
    case 4
    with inside ret show thesis
      by (cases "read_value argv i") (auto simp: parse_loop_e intro: e)
  next
    case 5
    with inside ret show thesis by (simp add: parse_loop_h)
  next
    case 6
    with inside ret show thesis
      by (cases "read_value argv i") (auto simp: parse_loop_s intro: s)
  next
    case 7
    with inside ret show thesis
      by (cases "read_value argv i") (auto simp: parse_loop_t intro: t)
  next
    case 8
    with inside ret show thesis by (simp add: parse_loop_unexpected)
  qed
qed

lemma parse_loop_Returned_induct [consumes 1, case_names finished m l f e s t]:
  assumes ret: "parse_loop argv i r = Returned r'"
    and finished: "\<And>i. \<not> i < length argv \<Longrightarrow> P i r'"
    and m: "\<And>i r. i < length argv \<Longrightarrow> argv ! i = ''-m'' \<Longrightarrow>
              parse_loop argv (i + 1) (r\<lparr>isSinglePart := False\<rparr>) = Returned r' \<Longrightarrow>
              P (i + 1) (r\<lparr>isSinglePart := False\<rparr>) \<Longrightarrow> P i r"
    and l: "\<And>i r v. i < length argv \<Longrightarrow> argv ! i = ''-l'' \<Longrightarrow>
              read_value argv i = Returned v \<Longrightarrow>
              parse_loop argv (i + 2) (r\<lparr>messageLength := v\<rparr>) = Returned r' \<Longrightarrow>
              P (i + 2) (r\<lparr>messageLength := v\<rparr>) \<Longrightarrow> P i r"
    and f: "\<And>i r v. i < length argv \<Longrightarrow> argv ! i = ''-f'' \<Longrightarrow>
              read_value argv i = Returned v \<Longrightarrow>
              parse_loop argv (i + 2) (r\<lparr>maxFragmentLength := v\<rparr>) = Returned r' \<Longrightarrow>
              P (i + 2) (r\<lparr>maxFragmentLength := v\<rparr>) \<Longrightarrow> P i r"
    and e: "\<And>i r v. i < length argv \<Longrightarrow> argv ! i = ''-e'' \<Longrightarrow>
              read_value argv i = Returned v \<Longrightarrow>
              parse_loop argv (i + 2) (r\<lparr>numExtraParts := v\<rparr>) = Returned r' \<Longrightarrow>
              P (i + 2) (r\<lparr>numExtraParts := v\<rparr>) \<Longrightarrow> P i r"
    and s: "\<And>i r v. i < length argv \<Longrightarrow> argv ! i = ''-s'' \<Longrightarrow>
              read_value argv i = Returned v \<Longrightarrow>
              parse_loop argv (i + 2) (r\<lparr>qrSize := ucast v\<rparr>) = Returned r' \<Longrightarrow>
              P (i + 2) (r\<lparr>qrSize := ucast v\<rparr>) \<Longrightarrow> P i r"
    and t: "\<And>i r v. i < length argv \<Longrightarrow> argv ! i = ''-t'' \<Longrightarrow>
              read_value argv i = Returned v \<Longrightarrow>
              parse_loop argv (i + 2) (r\<lparr>fps := ucast v\<rparr>) = Returned r' \<Longrightarrow>
              P (i + 2) (r\<lparr>fps := ucast v\<rparr>) \<Longrightarrow> P i r"
  shows "P i r"
  using ret
proof (induction "length argv - i" arbitrary: i r rule: less_induct)
  case less
  have one: "P (i + 1) r1" if "i < length argv" "parse_loop argv (i + 1) r1 = Returned r'" for r1
    using that less.hyps [of "i + 1" r1] by simp
  have two: "P (i + 2) r2" if "i < length argv" "parse_loop argv (i + 2) r2 = Returned r'" for r2
    using that less.hyps [of "i + 2" r2] by simp
  from less.prems show ?case
  proof (cases rule: parse_loop_ReturnedE)
    case finished
    then show ?thesis using assms(2) by simp
  next
    case m
    then show ?thesis using assms(3) one by blast
  next
    case (l v)
    then show ?thesis using assms(4) two by blast
  next
    case (f v)
    then show ?thesis using assms(5) two by blast
  next
    case (e v)
    then show ?thesis using assms(6) two by blast
  next
    case (s v)
    then show ?thesis using assms(7) two by blast
  next
    case (t v)
    then show ?thesis using assms(8) two by blast
  qed
qed

subsection \<open>Invariants of the parsing loop\<close>

lemma stoul_minus_m: "stoul ''-m'' = Inl invalid_argument"
  by (simp add: stoul_def isspace_def isdigit_def)

lemma read_value_Returned:
  "read_value argv i = Returned v \<Longrightarrow>
     i + 1 < length argv \<and> stoul (argv ! (i + 1)) = Inr v"
  by (auto simp: read_value_def argv_at_def split: if_splits sum.splits)

lemma read_value_not_m:
  "read_value argv i = Returned v \<Longrightarrow> argv ! (i + 1) \<noteq> ''-m''"
  using read_value_Returned [of argv i v] stoul_minus_m by auto

lemma parse_loop_lifeHashImageSize:
  "parse_loop argv i r = Returned r' \<Longrightarrow> lifeHashImageSize r = lifeHashImageSize r'"
  by (induction rule: parse_loop_Returned_induct) simp_all

lemma parse_loop_stays_multi:
  "parse_loop argv i r = Returned r' \<Longrightarrow> \<not> isSinglePart r \<Longrightarrow> \<not> isSinglePart r'"
  by (induction rule: parse_loop_Returned_induct) simp_all

lemma drop_two:
  "i + 1 < length xs \<Longrightarrow> drop i xs = xs ! i # xs ! (i + 1) # drop (i + 2) xs"
  by (simp add: Cons_nth_drop_Suc)

lemma parse_loop_without_m:
  "parse_loop argv i r = Returned r' \<Longrightarrow> ''-m'' \<notin> set (drop i argv) \<Longrightarrow>
     isSinglePart r = isSinglePart r'"
proof (induction rule: parse_loop_Returned_induct)
  case (finished i)
  then show ?case by simp
next
  case (m i r)
  then have "''-m'' \<in> set (drop i argv)"
    by (metis Cons_nth_drop_Suc list.set_intros(1))
  with m show ?case by simp
next
  case (l i r v)
  then show ?case using read_value_Returned [of argv i v] by (simp add: drop_two)
next
  case (f i r v)
  then show ?case using read_value_Returned [of argv i v] by (simp add: drop_two)
next
  case (e i r v)
  then show ?case using read_value_Returned [of argv i v] by (simp add: drop_two)
next
  case (s i r v)
  then show ?case using read_value_Returned [of argv i v] by (simp add: drop_two)
next
  case (t i r v)
  then show ?case using read_value_Returned [of argv i v] by (simp add: drop_two)
qed

lemma parse_loop_with_m:
  "parse_loop argv i r = Returned r' \<Longrightarrow> ''-m'' \<in> set (drop i argv) \<Longrightarrow>
     \<not> isSinglePart r'"
proof (induction rule: parse_loop_Returned_induct)
  case (finished i)
  then show ?case by simp
next
  case (m i r)
  then show ?case using parse_loop_stays_multi [of argv "i + 1" _ r'] by simp
next
  case (l i r v)
  then show ?case
    using read_value_Returned [of argv i v] read_value_not_m [of argv i v]
    by (simp add: drop_two)
next
  case (f i r v)
  then show ?case
    using read_value_Returned [of argv i v] read_value_not_m [of argv i v]
    by (simp add: drop_two)
next
  case (e i r v)
  then show ?case
    using read_value_Returned [of argv i v] read_value_not_m [of argv i v]
    by (simp add: drop_two)
next
  case (s i r v)
  then show ?case
    using read_value_Returned [of argv i v] read_value_not_m [of argv i v]
    by (simp add: drop_two)
next
  case (t i r v)
  then show ?case
    using read_value_Returned [of argv i v] read_value_not_m [of argv i v]
    by (simp add: drop_two)
qed

lemma range_checks_Returned:
  "range_checks r = Returned r' \<Longrightarrow> r' = r"
  by (auto simp: range_checks_def split: if_splits)

lemma ParseCommandLineArguments_Returned:
  "ParseCommandLineArguments argv = Returned args \<Longrightarrow>
     parse_loop argv 1 default_CommandLineArguments = Returned args"
  by (auto simp: ParseCommandLineArguments_def split: sum.splits dest: range_checks_Returned)

lemma read_value_no_assertion:
  "i < length argv \<Longrightarrow> read_value argv i \<noteq> Stopped (AssertionFailed msg)"
  by (auto simp: read_value_def argv_at_def split: sum.splits)

lemma value_branch_no_assertion:
  assumes "i < length argv"
    and "\<And>v. parse_loop argv (i + 2) (upd v) \<noteq> Stopped (AssertionFailed ''Value expected.'')"
  shows "(case read_value argv i of Inl s \<Rightarrow> Stopped s
          | Inr v \<Rightarrow> parse_loop argv (i + 2) (upd v))
         \<noteq> Stopped (AssertionFailed ''Value expected.'')"
  using assms read_value_no_assertion [of i argv "''Value expected.''"]
  by (cases "read_value argv i") auto

lemma parse_loop_never_value_expected:
  "parse_loop argv i r \<noteq> Stopped (AssertionFailed ''Value expected.'')"
proof (induction "length argv - i" arbitrary: i r rule: less_induct)
  case less
  show ?case
  proof (cases "i < length argv")
    case False
    then show ?thesis by (simp add: parse_loop_end)
  next
    case inside: True
    have later: "parse_loop argv (i + 2) r2 \<noteq> Stopped (AssertionFailed ''Value expected.'')" for r2
      using inside less.hyps [of "i + 2" r2] by simp
    consider "argv ! i = ''-m''" | "argv ! i = ''-l''" | "argv ! i = ''-f''"
      | "argv ! i = ''-e''" | "argv ! i = ''-h''" | "argv ! i = ''-s''" | "argv ! i = ''-t''"
      | "argv ! i \<notin> {''-m'', ''-l'', ''-f'', ''-e'', ''-h'', ''-s'', ''-t''}"
      by blast
    then show ?thesis
    proof cases
      case 1
      then show ?thesis
        using inside less.hyps [of "i + 1" "r\<lparr>isSinglePart := False\<rparr>"]
        by (simp add: parse_loop_m)
    next
      case 2
      then show ?thesis
        using inside value_branch_no_assertion [of i argv "\<lambda>v. r\<lparr>messageLength := v\<rparr>"] later
        by (simp add: parse_loop_l)
    next
      case 3
      then show ?thesis
        using inside value_branch_no_assertion [of i argv "\<lambda>v. r\<lparr>maxFragmentLength := v\<rparr>"] later
        by (simp add: parse_loop_f)
    next
      case 4
      then show ?thesis
        using inside value_branch_no_assertion [of i argv "\<lambda>v. r\<lparr>numExtraParts := v\<rparr>"] later
        by (simp add: parse_loop_e)
    next
      case 5
      then show ?thesis using inside by (simp add: parse_loop_h)
    next
      case 6
      then show ?thesis
        using inside value_branch_no_assertion [of i argv "\<lambda>v. r\<lparr>qrSize := ucast v\<rparr>"] later
        by (simp add: parse_loop_s)
    next
      case 7
      then show ?thesis
        using inside value_branch_no_assertion [of i argv "\<lambda>v. r\<lparr>fps := ucast v\<rparr>"] later
        by (simp add: parse_loop_t)
    next
      case 8
      then show ?thesis using inside by (simp add: parse_loop_unexpected)
    qed
  qed
qed

lemma range_checks_never_value_expected:
  "range_checks r \<noteq> Stopped (AssertionFailed ''Value expected.'')"
  by (simp add: range_checks_def)

lemmas parse_eval =
  ParseCommandLineArguments_def parse_loop.simps read_value_def argv_at_def stoul_def
  isspace_def isdigit_def decimal_value_def digit_value_def default_CommandLineArguments_def
  range_checks_def MAX_LENGTH_def

subsection \<open>The parsing loop on an extended argument vector\<close>

lemma read_value_append:
  "read_value xs i = Returned v \<Longrightarrow> read_value (xs @ ys) i = Returned v"
  by (auto simp: read_value_def argv_at_def nth_append split: if_splits sum.splits)

lemma parse_loop_append:
  "parse_loop xs i r = Returned r' \<Longrightarrow> i \<le> length xs \<Longrightarrow>
     parse_loop (xs @ ys) i r = parse_loop (xs @ ys) (length xs) r'"
proof (induction rule: parse_loop_Returned_induct)
  case (finished i)
  then show ?case by simp
next
  case (m i r)
  then show ?case by (simp add: parse_loop_m nth_append)
next
  case (l i r v)
  then show ?case
    using read_value_Returned [of xs i v] read_value_append [of xs i v ys]
    by (simp add: parse_loop_l nth_append)
next
  case (f i r v)
  then show ?case
    using read_value_Returned [of xs i v] read_value_append [of xs i v ys]
    by (simp add: parse_loop_f nth_append)
next
  case (e i r v)
  then show ?case
    using read_value_Returned [of xs i v] read_value_append [of xs i v ys]
    by (simp add: parse_loop_e nth_append)
next
  case (s i r v)
  then show ?case
    using read_value_Returned [of xs i v] read_value_append [of xs i v ys]
    by (simp add: parse_loop_s nth_append)
next
  case (t i r v)
  then show ?case
    using read_value_Returned [of xs i v] read_value_append [of xs i v ys]
    by (simp add: parse_loop_t nth_append)
qed

lemma parse_loop_after_prefix:
  assumes "parse_loop (prog # before) 1 default_CommandLineArguments = Returned r"
  shows "ParseCommandLineArguments (prog # before @ arg # rest) =
           (case parse_loop (prog # before @ arg # rest) (length (prog # before)) r of
              Inl s \<Rightarrow> Stopped s | Inr result \<Rightarrow> range_checks result)"
  using parse_loop_append [OF assms, of "arg # rest"]
  by (simp add: ParseCommandLineArguments_def)

subsection \<open>The multi-part loop\<close>

lemma length_next_parts: "length (next_parts lib encoder n) = n"
  by (induction n arbitrary: encoder) (auto split: prod.splits)

lemma GenerateMultiPartUr_loop_next_parts:
  assumes const: "\<And>e. seq_len lib (snd (next_part lib e)) = seq_len lib e"
  shows "unat i \<le> unat (seq_len lib encoder + numExtra) \<Longrightarrow>
           n = unat (seq_len lib encoder + numExtra) - unat i \<Longrightarrow>
           GenerateMultiPartUr_loop lib numExtra encoder i result
             = result @ next_parts lib encoder n"
proof (induction n arbitrary: encoder i result)
  case 0
  then have "\<not> i < seq_len lib encoder + numExtra"
    by (simp add: word_less_nat_alt)
  then show ?case
    by (subst GenerateMultiPartUr_loop.simps) simp
next
  case (Suc n)
  obtain part encoder' where step: "next_part lib encoder = (part, encoder')"
    by (cases "next_part lib encoder")
  have same: "seq_len lib encoder' = seq_len lib encoder"
    using const [of encoder] step by simp
  have below: "unat i < unat (seq_len lib encoder + numExtra)"
    using Suc.prems by linarith
  then have less: "i < seq_len lib encoder + numExtra"
    by (simp add: word_less_nat_alt)
  have "unat (seq_len lib encoder + numExtra) < 2 ^ 64"
    using unsigned_less [of "seq_len lib encoder + numExtra"] by simp
  with below have "unat i + 1 < 2 ^ 64" by linarith
  then have next_i: "unat (i + 1) = unat i + 1"
    by (simp add: unat_word_ariths)
  have "GenerateMultiPartUr_loop lib numExtra encoder' (i + 1) (result @ [part])
          = (result @ [part]) @ next_parts lib encoder' n"
    using Suc.prems below next_i same by (intro Suc.IH) simp_all
  then show ?case
    using less step by (subst GenerateMultiPartUr_loop.simps) simp
qed

lemma counting_library_seq_len:
  "\<forall>e. seq_len counting_library (snd (next_part counting_library e)) = seq_len counting_library e"
  by (simp add: counting_library_def split: prod.splits)

subsection \<open>The display loop\<close>

lemma next_index:
  assumes "i < n" "n < 2 ^ 31"
  shows "size_t_to_int (int_to_size_t (int i + 1) mod int n) = int ((i + 1) mod n)"
proof -
  have "int i + 1 < 2 ^ 64" using assms by simp
  then have "int_to_size_t (int i + 1) = int i + 1"
    by (simp add: int_to_size_t_def)
  moreover have "(int i + 1) mod int n = int ((i + 1) mod n)"
    by (simp add: zmod_int add.commute)
  moreover have "int ((i + 1) mod n) < 2 ^ 31"
  proof -
    have "(i + 1) mod n < n" using assms by simp
    from this assms(2) have "(i + 1) mod n < 2 ^ 31" by (rule less_trans)
    then have "int ((i + 1) mod n) < int (2 ^ 31)" by (simp only: of_nat_less_iff)
    then show ?thesis by simp
  qed
  ultimately show ?thesis
    by (simp add: size_t_to_int_def)
qed

lemma Present_loop_cycles:
  assumes "0 < length images" "length images < 2 ^ 31"
  shows "i < length images \<Longrightarrow>
         Present_loop images keys (int i) shown =
           (if 27 \<in> set keys then Quit else Blocked)
             (int ((i + length (takeWhile (\<lambda>k. k \<noteq> 27) keys)) mod length images))
             (shown @ map (\<lambda>j. images ! ((i + j) mod length images))
                        [0..<length (takeWhile (\<lambda>k. k \<noteq> 27) keys)])"
proof (induction keys arbitrary: i shown)
  case Nil
  then show ?case by simp
next
  case (Cons key keys)
  show ?case
  proof (cases "key = 27")
    case True
    with Cons.prems show ?thesis by simp
  next
    case False
    let ?n = "length images"
    let ?m = "length (takeWhile (\<lambda>k. k \<noteq> 27) keys)"
    have idx: "int_to_size_t (int i) = int i"
      using Cons.prems assms by (simp add: int_to_size_t_def)
    have no_overflow: "int i \<noteq> INT_MAX"
      using Cons.prems assms by (simp add: INT_MAX_def)
    have step: "Present_loop images (key # keys) (int i) shown
                  = Present_loop images keys (int ((i + 1) mod ?n)) (shown @ [images ! i])"
      using False Cons.prems assms idx no_overflow next_index [of i ?n]
      by simp
    have "(i + 1) mod ?n < ?n" using assms by simp
    note IH = Cons.IH [OF this, of "shown @ [images ! i]"]
    have index: "((i + 1) mod ?n + ?m) mod ?n = (i + Suc ?m) mod ?n"
      by (simp add: mod_add_left_eq)
    have frames: "[images ! i] @ map (\<lambda>j. images ! (((i + 1) mod ?n + j) mod ?n)) [0..<?m]
                    = map (\<lambda>j. images ! ((i + j) mod ?n)) [0..<Suc ?m]"
      using Cons.prems by (simp add: map_upt_Suc mod_add_left_eq del: upt_Suc)
    show ?thesis
      using False step IH index frames by (simp del: upt_Suc)
  qed
qed

subsection \<open>Runs of main\<close>

lemma for_each_calls:
  "map g xs = map Some ys \<Longrightarrow>
     for_each (\<lambda>x. call (ev x) (g x)) xs log = (Inr ys, log @ map ev xs)"
proof (induction xs arbitrary: ys log)
  case Nil
  then show ?case by (simp add: yield_def)
next
  case (Cons x xs)
  then obtain y ys' where ys: "ys = y # ys'" "g x = Some y" "map g xs = map Some ys'"
    by (cases ys) auto
  from Cons.IH [OF ys(3)] ys show ?case
    by (simp add: and_then_def call_def yield_def)
qed

lemma for_each_Some:
  "for_each (\<lambda>qur. case qur of None \<Rightarrow> fail NullQRcode | Some q \<Rightarrow> f q) (map Some qurs)
     = for_each f qurs"
  by (induction qurs) simp_all

lemma for_each_values:
  "for_each (\<lambda>x. call (ev x) (Some (g x))) xs log = (Inr (map g xs), log @ map ev xs)"
  by (rule for_each_calls) simp

lemma MakeMessageUr_run:
  assumes "next_data env len = Some message"
    and "encodeBytes env message = Some cbor_bytes"
    and "new_UR env ''bytes'' cbor_bytes = Some ur"
  shows "MakeMessageUr env len log
           = (Inr ur, log @ [Next_data len, EncodeBytes message, New_UR ''bytes'' cbor_bytes])"
  using assms by (simp add: MakeMessageUr_def MakeMessage_def and_then_def call_def)

lemma CreateLifeHashImage_run:
  assumes "make_from_data env (cbor env ur) = Some lifeHash"
    and "lifehash_image env lifeHash imageSize = Some lifeHashImage"
  shows "CreateLifeHashImage env ur imageSize log
           = (Inr lifeHashImage,
              log @ [Make_from_data (cbor env ur), Lifehash_image lifeHash imageSize])"
  using assms by (simp add: CreateLifeHashImage_def and_then_def call_def)

lemma CreateQurImages_run:
  assumes "map (QRcode_encodeString8bit env) urs = map Some qurs"
    and "map (\<lambda>q. qrcode_image env q imageSize) qurs = map Some qurImages"
  shows "CreateQurImages env urs imageSize log
           = (Inr qurImages,
              log @ map QRcode_encode urs @ map (\<lambda>q. Qrcode_image q imageSize) qurs)"
proof -
  have "for_each (\<lambda>ur. call (QRcode_encode ur) (Some (QRcode_encodeString8bit env ur))) urs log
          = (Inr (map Some qurs), log @ map QRcode_encode urs)"
    using assms(1) by (simp add: for_each_values)
  moreover have "for_each (\<lambda>q. call (Qrcode_image q imageSize) (qrcode_image env q imageSize)) qurs
                   (log @ map QRcode_encode urs)
          = (Inr qurImages,
             (log @ map QRcode_encode urs) @ map (\<lambda>q. Qrcode_image q imageSize) qurs)"
    using assms(2) by (rule for_each_calls)
  ultimately show ?thesis
    by (simp add: CreateQurImages_def and_then_def for_each_Some)
qed

lemma Present_run:
  assumes "map (composite env (foldl (\<lambda>w img. max (cols env img) w) (cols env lifeHashImage)
                                 qurImages) lifeHashImage) qurImages = map Some images"
  shows "Present env lifeHashImage qurImages rate keys log
           = (Inr (Present_loop images keys 0 []),
              log @ map (Composite (foldl (\<lambda>w img. max (cols env img) w) (cols env lifeHashImage)
                                      qurImages) lifeHashImage) qurImages
                  @ [Animate images rate])"
proof -
  let ?width = "foldl (\<lambda>w img. max (cols env img) w) (cols env lifeHashImage) qurImages"
  have "for_each (\<lambda>qurImage. call (Composite ?width lifeHashImage qurImage)
                                (composite env ?width lifeHashImage qurImage)) qurImages log
          = (Inr images, log @ map (Composite ?width lifeHashImage) qurImages)"
    using assms by (rule for_each_calls)
  then show ?thesis
    by (simp add: Present_def Let_def and_then_def call_def)
qed

lemma main_run:
  assumes parse: "ParseCommandLineArguments argv = Returned args"
    and message: "next_data env (messageLength args) = Some message"
    and cbor_bytes: "encodeBytes env message = Some cbor_bytes"
    and ur: "new_UR env ''bytes'' cbor_bytes = Some ur"
    and lifeHash: "make_from_data env (cbor env ur) = Some lifeHash"
    and lifeHashImage: "lifehash_image env lifeHash (lifeHashImageSize args) = Some lifeHashImage"
    and qurs: "map (QRcode_encodeString8bit env) (CreateUrs lib ur args) = map Some qurs"
    and qurImages: "map (\<lambda>q. qrcode_image env q (qrSize args)) qurs = map Some qurImages"
    and images: "map (composite env (foldl (\<lambda>w img. max (cols env img) w)
                                      (cols env lifeHashImage) qurImages) lifeHashImage) qurImages
                   = map Some images"
  shows "main env lib argv keys
           = (Inr (Present_loop images keys 0 []),
              [Parse argv,
               Next_data (messageLength args),
               EncodeBytes message,
               New_UR ''bytes'' cbor_bytes,
               Make_from_data (cbor env ur),
               Lifehash_image lifeHash (lifeHashImageSize args),
               Encode_UR ur (isSinglePart args) (maxFragmentLength args) (numExtraParts args)]
              @ map QRcode_encode (CreateUrs lib ur args)
              @ map (\<lambda>q. Qrcode_image q (qrSize args)) qurs
              @ map (Composite (foldl (\<lambda>w img. max (cols env img) w)
                                  (cols env lifeHashImage) qurImages) lifeHashImage) qurImages
              @ [Animate images (fps args)])"
proof -
  have 1: "ParseCommandLineArguments_run argv [] = (Inr args, [Parse argv])"
    using parse by (simp add: ParseCommandLineArguments_run_def)
  note 2 = MakeMessageUr_run [OF message cbor_bytes ur]
  note 3 = CreateLifeHashImage_run [OF lifeHash lifeHashImage]
  note 5 = CreateQurImages_run [OF qurs qurImages]
  note 6 = Present_run [OF images]
  show ?thesis
    unfolding main_def
    by (simp add: and_then_def 1 2 3 CreateUrs_run_def call_def 5 6)
qed

lemma main_parser_stops:
  "ParseCommandLineArguments argv = Stopped s \<Longrightarrow>
     main env lib argv keys = (Inl (ParserStopped s), [Parse argv])"
  by (simp add: main_def and_then_def ParseCommandLineArguments_run_def)

lemma main_message_fails:
  "ParseCommandLineArguments argv = Returned args \<Longrightarrow>
   next_data env (messageLength args) = None \<Longrightarrow>
     main env lib argv keys
       = (Inl LibraryCallFailed, [Parse argv, Next_data (messageLength args)])"
  by (simp add: main_def and_then_def ParseCommandLineArguments_run_def MakeMessageUr_def
      MakeMessage_def call_def)

lemma MAX_LENGTH_value: "MAX_LENGTH = 1465"
  by (simp add: MAX_LENGTH_def)

subsection \<open>The claims\<close>

text \<open>
  C8. With no command-line argument (\<^verbatim>\<open>argc = 1\<close>, whatever the program name),
  \<open>ParseCommandLineArguments\<close> returns the default options record: single part,
  message length 100, maximal fragment length 100, no extra part, QR size 256,
  lifehash image size 128, 4 frames per second.
\<close>

theorem C8_no_arguments_defaults:
  "ParseCommandLineArguments [prog] =
     Returned \<lparr> isSinglePart = True, messageLength = 100, maxFragmentLength = 100,
                numExtraParts = 0, qrSize = 256, lifeHashImageSize = 128, fps = 4 \<rparr>"
  by (simp add: ParseCommandLineArguments_def parse_loop.simps
      default_CommandLineArguments_def range_checks_def MAX_LENGTH_value)

text \<open>
  C1. The claim: a value-taking flag (\<^verbatim>\<open>-l\<close>, \<^verbatim>\<open>-f\<close>, \<^verbatim>\<open>-e\<close>, \<^verbatim>\<open>-s\<close>, \<^verbatim>\<open>-t\<close>) that is
  the last argument, with no value after it, makes \<open>ParseCommandLineArguments\<close> fail
  its assertion. The code at these inputs: with the flag at index \<open>argc - 1\<close> the
  condition \<^verbatim>\<open>i+1 <= argc\<close> holds, the assertion passes, and \<^verbatim>\<open>argv[argc]\<close>, the null
  pointer, is given to \<^verbatim>\<open>std::string\<close>. The assertion \<^verbatim>\<open>"Value expected."\<close> fails
  for no argument vector at all.
\<close>

theorem C1_flag_without_value:
  "ParseCommandLineArguments [prog, ''-l''] = Stopped StringFromNull
   \<and> ParseCommandLineArguments [prog, ''-f''] = Stopped StringFromNull
   \<and> ParseCommandLineArguments [prog, ''-e''] = Stopped StringFromNull
   \<and> ParseCommandLineArguments [prog, ''-s''] = Stopped StringFromNull
   \<and> ParseCommandLineArguments [prog, ''-t''] = Stopped StringFromNull
   \<and> ParseCommandLineArguments argv \<noteq> Stopped (AssertionFailed ''Value expected.'')"
proof -
  have "ParseCommandLineArguments argv \<noteq> Stopped (AssertionFailed ''Value expected.'')"
    using parse_loop_never_value_expected [of argv 1 default_CommandLineArguments]
      range_checks_never_value_expected
    by (cases "parse_loop argv 1 default_CommandLineArguments")
       (simp_all add: ParseCommandLineArguments_def)
  then show ?thesis
    by (simp add: ParseCommandLineArguments_def parse_loop.simps read_value_def argv_at_def)
qed

text \<open>
  C2. A record returned by \<open>ParseCommandLineArguments\<close> satisfies the range check of
  its mode: single part, \<open>messageLength \<le> 1465\<close>; multi part,
  \<open>maxFragmentLength \<le> messageLength\<close> and \<open>maxFragmentLength \<le> 1465\<close>
  (1465 is \<^verbatim>\<open>2956 / 2 - 13\<close>). When the record the flag loop has built violates the
  check of its mode, the call ends in an assertion failure instead of returning.
\<close>

theorem C2_range_checks:
  "(\<forall>args. ParseCommandLineArguments argv = Returned args \<longrightarrow>
      (if isSinglePart args then messageLength args \<le> 1465
       else maxFragmentLength args \<le> messageLength args \<and> maxFragmentLength args \<le> 1465))
   \<and> (\<forall>args. parse_loop argv 1 default_CommandLineArguments = Returned args
         \<and> \<not> (if isSinglePart args then messageLength args \<le> 1465
                else maxFragmentLength args \<le> messageLength args
                     \<and> maxFragmentLength args \<le> 1465) \<longrightarrow>
         (\<exists>msg. ParseCommandLineArguments argv = Stopped (AssertionFailed msg)))"
  by (auto simp: ParseCommandLineArguments_def range_checks_def MAX_LENGTH_value
      split: sum.splits if_splits)

theorem C2_range_checks_witness:
  "ParseCommandLineArguments [''qurtest'', ''-l'', ''200'']
     = Returned (default_CommandLineArguments\<lparr>messageLength := 200\<rparr>)
   \<and> messageLength (default_CommandLineArguments\<lparr>messageLength := 200\<rparr>) \<le> 1465
   \<and> parse_loop [''qurtest'', ''-m'', ''-f'', ''2000'', ''-l'', ''3000''] 1 default_CommandLineArguments
     = Returned (default_CommandLineArguments
                   \<lparr>isSinglePart := False, maxFragmentLength := 2000, messageLength := 3000\<rparr>)
   \<and> ParseCommandLineArguments [''qurtest'', ''-m'', ''-f'', ''2000'', ''-l'', ''3000'']
       = Stopped (AssertionFailed ''Fragment too long'')"
proof -
  have stop: "ParseCommandLineArguments [''qurtest'', ''-m'', ''-f'', ''2000'', ''-l'', ''3000'']
                = Stopped (AssertionFailed ''Fragment too long'')"
    by (simp add: parse_eval)
  have ret: "ParseCommandLineArguments [''qurtest'', ''-l'', ''200'']
               = Returned (default_CommandLineArguments\<lparr>messageLength := 200\<rparr>)"
    by (simp add: parse_eval)
  have loop: "parse_loop [''qurtest'', ''-m'', ''-f'', ''2000'', ''-l'', ''3000''] 1
                default_CommandLineArguments
              = Returned (default_CommandLineArguments
                   \<lparr>isSinglePart := False, maxFragmentLength := 2000, messageLength := 3000\<rparr>)"
    by (simp add: parse_eval)
  have bad: "\<not> (if isSinglePart (default_CommandLineArguments
                   \<lparr>isSinglePart := False, maxFragmentLength := 2000, messageLength := 3000\<rparr>)
                then messageLength (default_CommandLineArguments
                   \<lparr>isSinglePart := False, maxFragmentLength := 2000, messageLength := 3000\<rparr>) \<le> 1465
                else maxFragmentLength (default_CommandLineArguments
                   \<lparr>isSinglePart := False, maxFragmentLength := 2000, messageLength := 3000\<rparr>)
                     \<le> messageLength (default_CommandLineArguments
                   \<lparr>isSinglePart := False, maxFragmentLength := 2000, messageLength := 3000\<rparr>)
                   \<and> maxFragmentLength (default_CommandLineArguments
                   \<lparr>isSinglePart := False, maxFragmentLength := 2000, messageLength := 3000\<rparr>) \<le> 1465)"
    by simp
  from C2_range_checks [of "[''qurtest'', ''-l'', ''200'']"] ret
  have "messageLength (default_CommandLineArguments\<lparr>messageLength := 200\<rparr>) \<le> 1465"
    by (auto simp: default_CommandLineArguments_def)
  moreover from C2_range_checks [of "[''qurtest'', ''-m'', ''-f'', ''2000'', ''-l'', ''3000'']"] loop bad
  have "\<exists>msg. ParseCommandLineArguments [''qurtest'', ''-m'', ''-f'', ''2000'', ''-l'', ''3000'']
               = Stopped (AssertionFailed msg)"
    by blast
  ultimately show ?thesis using ret loop stop by blast
qed

text \<open>
  C10. Whatever argument vector \<open>ParseCommandLineArguments\<close> accepts, the field
  \<open>lifeHashImageSize\<close> of the returned record is 128: no flag assigns it. Each of the
  other six fields is changed from its default by some accepted argument vector.
\<close>

theorem C10_lifeHashImageSize_fixed:
  "(\<forall>argv args. ParseCommandLineArguments argv = Returned args \<longrightarrow> lifeHashImageSize args = 128)
   \<and> (\<exists>argv args. ParseCommandLineArguments argv = Returned args
          \<and> isSinglePart args \<noteq> isSinglePart default_CommandLineArguments)
   \<and> (\<exists>argv args. ParseCommandLineArguments argv = Returned args
          \<and> messageLength args \<noteq> messageLength default_CommandLineArguments)
   \<and> (\<exists>argv args. ParseCommandLineArguments argv = Returned args
          \<and> maxFragmentLength args \<noteq> maxFragmentLength default_CommandLineArguments)
   \<and> (\<exists>argv args. ParseCommandLineArguments argv = Returned args
          \<and> numExtraParts args \<noteq> numExtraParts default_CommandLineArguments)
   \<and> (\<exists>argv args. ParseCommandLineArguments argv = Returned args
          \<and> qrSize args \<noteq> qrSize default_CommandLineArguments)
   \<and> (\<exists>argv args. ParseCommandLineArguments argv = Returned args
          \<and> fps args \<noteq> fps default_CommandLineArguments)"
proof -
  have fixed: "lifeHashImageSize args = 128"
    if "ParseCommandLineArguments argv = Returned args" for argv args
    using parse_loop_lifeHashImageSize [OF ParseCommandLineArguments_Returned [OF that]]
    by (simp add: default_CommandLineArguments_def)
  have m: "ParseCommandLineArguments [''qurtest'', ''-m'']
             = Returned (default_CommandLineArguments\<lparr>isSinglePart := False\<rparr>)"
    by (simp add: parse_eval)
  have l: "ParseCommandLineArguments [''qurtest'', ''-l'', ''200'']
             = Returned (default_CommandLineArguments\<lparr>messageLength := 200\<rparr>)"
    by (simp add: parse_eval)
  have f: "ParseCommandLineArguments [''qurtest'', ''-f'', ''50'']
             = Returned (default_CommandLineArguments\<lparr>maxFragmentLength := 50\<rparr>)"
    by (simp add: parse_eval)
  have e: "ParseCommandLineArguments [''qurtest'', ''-e'', ''3'']
             = Returned (default_CommandLineArguments\<lparr>numExtraParts := 3\<rparr>)"
    by (simp add: parse_eval)
  have s: "ParseCommandLineArguments [''qurtest'', ''-s'', ''512'']
             = Returned (default_CommandLineArguments\<lparr>qrSize := 512\<rparr>)"
    by (simp add: parse_eval)
  have t: "ParseCommandLineArguments [''qurtest'', ''-t'', ''8'']
             = Returned (default_CommandLineArguments\<lparr>fps := 8\<rparr>)"
    by (simp add: parse_eval)
  have "\<exists>argv args. ParseCommandLineArguments argv = Returned args
          \<and> isSinglePart args \<noteq> isSinglePart default_CommandLineArguments"
    using m by (intro exI conjI, assumption) (simp add: default_CommandLineArguments_def)
  moreover have "\<exists>argv args. ParseCommandLineArguments argv = Returned args
          \<and> messageLength args \<noteq> messageLength default_CommandLineArguments"
    using l by (intro exI conjI, assumption) (simp add: default_CommandLineArguments_def)
  moreover have "\<exists>argv args. ParseCommandLineArguments argv = Returned args
          \<and> maxFragmentLength args \<noteq> maxFragmentLength default_CommandLineArguments"
    using f by (intro exI conjI, assumption) (simp add: default_CommandLineArguments_def)
  moreover have "\<exists>argv args. ParseCommandLineArguments argv = Returned args
          \<and> numExtraParts args \<noteq> numExtraParts default_CommandLineArguments"
    using e by (intro exI conjI, assumption) (simp add: default_CommandLineArguments_def)
  moreover have "\<exists>argv args. ParseCommandLineArguments argv = Returned args
          \<and> qrSize args \<noteq> qrSize default_CommandLineArguments"
    using s by (intro exI conjI, assumption) (simp add: default_CommandLineArguments_def)
  moreover have "\<exists>argv args. ParseCommandLineArguments argv = Returned args
          \<and> fps args \<noteq> fps default_CommandLineArguments"
    using t by (intro exI conjI, assumption) (simp add: default_CommandLineArguments_def)
  ultimately show ?thesis using fixed by blast
qed

theorem C10_lifeHashImageSize_fixed_witness:
  "ParseCommandLineArguments [''qurtest'', ''-m'', ''-l'', ''300'', ''-f'', ''50'', ''-e'', ''3'',
      ''-s'', ''512'', ''-t'', ''8'']
     = Returned \<lparr> isSinglePart = False, messageLength = 300, maxFragmentLength = 50,
                  numExtraParts = 3, qrSize = 512, lifeHashImageSize = 128, fps = 8 \<rparr>
   \<and> lifeHashImageSize \<lparr> isSinglePart = False, messageLength = 300, maxFragmentLength = 50,
                  numExtraParts = 3, qrSize = 512, lifeHashImageSize = 128, fps = 8 \<rparr> = 128"
proof -
  have ret: "ParseCommandLineArguments [''qurtest'', ''-m'', ''-l'', ''300'', ''-f'', ''50'', ''-e'', ''3'',
      ''-s'', ''512'', ''-t'', ''8'']
     = Returned \<lparr> isSinglePart = False, messageLength = 300, maxFragmentLength = 50,
                  numExtraParts = 3, qrSize = 512, lifeHashImageSize = 128, fps = 8 \<rparr>"
    by (simp add: parse_eval)
  with C10_lifeHashImageSize_fixed show ?thesis by blast
qed

text \<open>
  C4. The claim: whenever the argument vector contains \<^verbatim>\<open>-h\<close>, the usage text is
  printed and the program exits with status 0, whatever precedes it. The loop reads
  the arguments in order, so an earlier argument can stop the program first: an
  unexpected argument fails the assertion, and a value-taking flag right before
  \<^verbatim>\<open>-h\<close> takes it as its value, which \<^verbatim>\<open>std::stoul\<close> rejects.
\<close>

theorem C4_help_not_regardless_counterexample:
  "''-h'' \<in> set [''qurtest'', ''-x'', ''-h'']
   \<and> ParseCommandLineArguments [''qurtest'', ''-x'', ''-h'']
       = Stopped (AssertionFailed ''Unexpected command line argument'')
   \<and> ''-h'' \<in> set [''qurtest'', ''-l'', ''-h'']
   \<and> ParseCommandLineArguments [''qurtest'', ''-l'', ''-h''] = Stopped (Uncaught invalid_argument)"
  by (simp add: parse_eval)

text \<open>
  C4, as the code has it: when the arguments before \<^verbatim>\<open>-h\<close> are accepted by the flag
  loop on their own (recognised flags, each value-taking one followed by a value that
  \<^verbatim>\<open>std::stoul\<close> parses), the usage text is written to \<^verbatim>\<open>std::cerr\<close> and the program
  exits with status 0, whatever follows \<^verbatim>\<open>-h\<close> and without the range checks.
\<close>

theorem C4_help_after_accepted_arguments:
  assumes "parse_loop (prog # before) 1 default_CommandLineArguments = Returned r"
  shows "ParseCommandLineArguments (prog # before @ ''-h'' # rest) = Stopped (Exited 0 usage)"
proof -
  have "parse_loop (prog # before @ ''-h'' # rest) (length (prog # before)) r
          = Stopped (Exited 0 usage)"
    by (rule parse_loop_h) (simp_all add: nth_append)
  then show ?thesis
    using parse_loop_after_prefix [OF assms, of "''-h''" rest] by simp
qed

theorem C4_help_after_accepted_arguments_witness:
  "parse_loop [''qurtest'', ''-m'', ''-l'', ''5000''] 1 default_CommandLineArguments
     = Returned (default_CommandLineArguments\<lparr>isSinglePart := False, messageLength := 5000\<rparr>)
   \<and> ParseCommandLineArguments [''qurtest'', ''-m'', ''-l'', ''5000'', ''-h'', ''-x'']
     = Stopped (Exited 0 usage)"
proof -
  have pre: "parse_loop (''qurtest'' # [''-m'', ''-l'', ''5000'']) 1 default_CommandLineArguments
     = Returned (default_CommandLineArguments\<lparr>isSinglePart := False, messageLength := 5000\<rparr>)"
    by (simp add: parse_eval)
  from C4_help_after_accepted_arguments [OF pre, of "[''-x'']"] pre show ?thesis by simp
qed

text \<open>
  C7. The claim: every argument that is no recognised flag and is not taken as the
  value of a flag before it makes the program abort through the assertion. An earlier
  \<^verbatim>\<open>-h\<close> exits with status 0 before the argument is read, and an earlier value that
  \<^verbatim>\<open>std::stoul\<close> rejects ends the program by an uncaught exception.
\<close>

theorem C7_unexpected_not_always_asserted_counterexample:
  "''foo'' \<notin> {''-m'', ''-l'', ''-f'', ''-e'', ''-h'', ''-s'', ''-t''}
   \<and> ParseCommandLineArguments [''qurtest'', ''-h'', ''foo''] = Stopped (Exited 0 usage)
   \<and> ParseCommandLineArguments [''qurtest'', ''-l'', ''x'', ''foo'']
       = Stopped (Uncaught invalid_argument)"
  by (simp add: parse_eval)

text \<open>
  C7, as the code has it: when the arguments before it are accepted by the flag loop
  on their own, an argument that is none of \<^verbatim>\<open>-m -l -f -e -h -s -t\<close> fails the assertion
  \<^verbatim>\<open>"Unexpected command line argument"\<close>, whatever follows it.
\<close>

theorem C7_unexpected_after_accepted_arguments:
  assumes "parse_loop (prog # before) 1 default_CommandLineArguments = Returned r"
    and "arg \<notin> {''-m'', ''-l'', ''-f'', ''-e'', ''-h'', ''-s'', ''-t''}"
  shows "ParseCommandLineArguments (prog # before @ arg # rest)
           = Stopped (AssertionFailed ''Unexpected command line argument'')"
proof -
  have "parse_loop (prog # before @ arg # rest) (length (prog # before)) r
          = Stopped (AssertionFailed ''Unexpected command line argument'')"
    using assms(2) by (intro parse_loop_unexpected) (simp_all add: nth_append)
  then show ?thesis
    using parse_loop_after_prefix [OF assms(1), of arg rest] by simp
qed

theorem C7_unexpected_after_accepted_arguments_witness:
  "parse_loop [''qurtest'', ''-m'', ''-l'', ''5000''] 1 default_CommandLineArguments
     = Returned (default_CommandLineArguments\<lparr>isSinglePart := False, messageLength := 5000\<rparr>)
   \<and> ''--fast'' \<notin> {''-m'', ''-l'', ''-f'', ''-e'', ''-h'', ''-s'', ''-t''}
   \<and> ParseCommandLineArguments [''qurtest'', ''-m'', ''-l'', ''5000'', ''--fast'', ''-h'']
     = Stopped (AssertionFailed ''Unexpected command line argument'')"
proof -
  have pre: "parse_loop (''qurtest'' # [''-m'', ''-l'', ''5000'']) 1 default_CommandLineArguments
     = Returned (default_CommandLineArguments\<lparr>isSinglePart := False, messageLength := 5000\<rparr>)"
    by (simp add: parse_eval)
  have unknown: "''--fast'' \<notin> {''-m'', ''-l'', ''-f'', ''-e'', ''-h'', ''-s'', ''-t''}"
    by simp
  from C7_unexpected_after_accepted_arguments [OF pre unknown, of "[''-h'']"] pre unknown
  show ?thesis by simp
qed

text \<open>
  C5. For an accepted argument vector without \<^verbatim>\<open>-m\<close> among the arguments after the
  program name, \<open>CreateUrs\<close> returns exactly one string, the single-part encoding
  \<^verbatim>\<open>ur::UREncoder::encode(message)\<close>; with \<^verbatim>\<open>-m\<close> among them it returns the multi-part
  encoding instead: the result of \<open>GenerateMultiPartUr\<close> for the parsed fragment length
  and number of extra parts, which for an encoder whose \<^verbatim>\<open>seq_len()\<close> is not changed by
  \<^verbatim>\<open>next_part()\<close> is the list of the parts of \<open>(seq_len + numExtraParts) mod 2\<^sup>6\<^sup>4\<close>
  successive calls of \<^verbatim>\<open>next_part()\<close>.
\<close>

theorem C5_single_or_multi_part:
  assumes "ParseCommandLineArguments argv = Returned args"
  shows "(''-m'' \<notin> set (drop 1 argv) \<longrightarrow>
            CreateUrs lib message args = [encode lib message]
            \<and> length (CreateUrs lib message args) = 1)
         \<and> (''-m'' \<in> set (drop 1 argv) \<longrightarrow>
            CreateUrs lib message args
              = GenerateMultiPartUr lib message (maxFragmentLength args) (numExtraParts args)
            \<and> ((\<forall>e. seq_len lib (snd (next_part lib e)) = seq_len lib e) \<longrightarrow>
                 CreateUrs lib message args
                   = next_parts lib (UREncoder lib message (maxFragmentLength args))
                       ((unat (seq_len lib (UREncoder lib message (maxFragmentLength args)))
                           + unat (numExtraParts args)) mod 2 ^ 64)))"
proof -
  let ?encoder = "UREncoder lib message (maxFragmentLength args)"
  have run: "parse_loop argv 1 default_CommandLineArguments = Returned args"
    using assms by (rule ParseCommandLineArguments_Returned)
  have single: "CreateUrs lib message args = [encode lib message]"
    if "''-m'' \<notin> set (drop 1 argv)"
    using parse_loop_without_m [OF run that]
    by (simp add: default_CommandLineArguments_def CreateUrs_def GenerateSinglePartUr_def)
  have multi: "CreateUrs lib message args
                 = GenerateMultiPartUr lib message (maxFragmentLength args) (numExtraParts args)"
    if "''-m'' \<in> set (drop 1 argv)"
    using parse_loop_with_m [OF run that] by (simp add: CreateUrs_def)
  have parts: "GenerateMultiPartUr lib message (maxFragmentLength args) (numExtraParts args)
                 = next_parts lib ?encoder
                     ((unat (seq_len lib ?encoder) + unat (numExtraParts args)) mod 2 ^ 64)"
    if const: "\<forall>e. seq_len lib (snd (next_part lib e)) = seq_len lib e"
  proof -
    have "GenerateMultiPartUr_loop lib (numExtraParts args) ?encoder 0 []
            = [] @ next_parts lib ?encoder (unat (seq_len lib ?encoder + numExtraParts args))"
      using const by (intro GenerateMultiPartUr_loop_next_parts) simp_all
    then show ?thesis
      by (simp add: GenerateMultiPartUr_def unat_word_ariths)
  qed
  show ?thesis
    using single multi parts by simp
qed

theorem C5_single_or_multi_part_witness:
  "ParseCommandLineArguments [''qurtest'', ''-l'', ''3'']
     = Returned (default_CommandLineArguments\<lparr>messageLength := 3\<rparr>)
   \<and> ''-m'' \<notin> set (drop 1 [''qurtest'', ''-l'', ''3''])
   \<and> CreateUrs counting_library ''abc'' (default_CommandLineArguments\<lparr>messageLength := 3\<rparr>)
       = [''ur:bytes/abc'']
   \<and> ParseCommandLineArguments [''qurtest'', ''-e'', ''1'', ''-m'']
     = Returned (default_CommandLineArguments\<lparr>numExtraParts := 1, isSinglePart := False\<rparr>)
   \<and> ''-m'' \<in> set (drop 1 [''qurtest'', ''-e'', ''1'', ''-m''])
   \<and> (\<forall>e. seq_len counting_library (snd (next_part counting_library e))
            = seq_len counting_library e)
   \<and> CreateUrs counting_library ''a''
         (default_CommandLineArguments\<lparr>numExtraParts := 1, isSinglePart := False\<rparr>)
       = [''ur:bytes/a'', ''ur:bytes/aa'', ''ur:bytes/aaa'']"
proof -
  have single: "ParseCommandLineArguments [''qurtest'', ''-l'', ''3'']
     = Returned (default_CommandLineArguments\<lparr>messageLength := 3\<rparr>)"
    by (simp add: parse_eval)
  have multi: "ParseCommandLineArguments [''qurtest'', ''-e'', ''1'', ''-m'']
     = Returned (default_CommandLineArguments\<lparr>numExtraParts := 1, isSinglePart := False\<rparr>)"
    by (simp add: parse_eval)
  let ?multi = "default_CommandLineArguments\<lparr>numExtraParts := 1, isSinglePart := False\<rparr>"
  have mem: "''-m'' \<in> set (drop 1 [''qurtest'', ''-e'', ''1'', ''-m''])"
    by simp
  have count: "(unat (seq_len counting_library
                          (UREncoder counting_library ''a'' (maxFragmentLength ?multi)))
                   + unat (numExtraParts ?multi)) mod 2 ^ 64 = Suc (Suc (Suc 0))"
    by (simp add: counting_library_def default_CommandLineArguments_def)
  have parts: "next_parts counting_library
                 (UREncoder counting_library ''a'' (maxFragmentLength ?multi))
                 ((unat (seq_len counting_library
                           (UREncoder counting_library ''a'' (maxFragmentLength ?multi)))
                     + unat (numExtraParts ?multi)) mod 2 ^ 64)
                = [''ur:bytes/a'', ''ur:bytes/aa'', ''ur:bytes/aaa'']"
    unfolding count by (simp add: counting_library_def)
  from C5_single_or_multi_part [OF single, of counting_library "''abc''"]
  have "CreateUrs counting_library ''abc'' (default_CommandLineArguments\<lparr>messageLength := 3\<rparr>)
       = [''ur:bytes/abc'']"
    by (simp add: counting_library_def)
  moreover have "CreateUrs counting_library ''a'' ?multi
          = next_parts counting_library
              (UREncoder counting_library ''a'' (maxFragmentLength ?multi))
              ((unat (seq_len counting_library
                        (UREncoder counting_library ''a'' (maxFragmentLength ?multi)))
                  + unat (numExtraParts ?multi)) mod 2 ^ 64)"
  proof -
    note C5_single_or_multi_part [OF multi, of counting_library "''a''"]
    then have "''-m'' \<in> set (drop 1 [''qurtest'', ''-e'', ''1'', ''-m'']) \<longrightarrow>
                 CreateUrs counting_library ''a'' ?multi
                   = GenerateMultiPartUr counting_library ''a'' (maxFragmentLength ?multi)
                       (numExtraParts ?multi)
                 \<and> ((\<forall>e. seq_len counting_library (snd (next_part counting_library e))
                          = seq_len counting_library e) \<longrightarrow>
                      CreateUrs counting_library ''a'' ?multi
                        = next_parts counting_library
                            (UREncoder counting_library ''a'' (maxFragmentLength ?multi))
                            ((unat (seq_len counting_library
                                      (UREncoder counting_library ''a'' (maxFragmentLength ?multi)))
                                + unat (numExtraParts ?multi)) mod 2 ^ 64))"
      by (rule conjunct2)
    then have "CreateUrs counting_library ''a'' ?multi
                   = GenerateMultiPartUr counting_library ''a'' (maxFragmentLength ?multi)
                       (numExtraParts ?multi)
                 \<and> ((\<forall>e. seq_len counting_library (snd (next_part counting_library e))
                          = seq_len counting_library e) \<longrightarrow>
                      CreateUrs counting_library ''a'' ?multi
                        = next_parts counting_library
                            (UREncoder counting_library ''a'' (maxFragmentLength ?multi))
                            ((unat (seq_len counting_library
                                      (UREncoder counting_library ''a'' (maxFragmentLength ?multi)))
                                + unat (numExtraParts ?multi)) mod 2 ^ 64))"
      using mem by (rule mp)
    then have "(\<forall>e. seq_len counting_library (snd (next_part counting_library e))
                          = seq_len counting_library e) \<longrightarrow>
                      CreateUrs counting_library ''a'' ?multi
                        = next_parts counting_library
                            (UREncoder counting_library ''a'' (maxFragmentLength ?multi))
                            ((unat (seq_len counting_library
                                      (UREncoder counting_library ''a'' (maxFragmentLength ?multi)))
                                + unat (numExtraParts ?multi)) mod 2 ^ 64)"
      by (rule conjunct2)
    then show ?thesis using counting_library_seq_len by (rule mp)
  qed
  then have "CreateUrs counting_library ''a'' ?multi
       = [''ur:bytes/a'', ''ur:bytes/aa'', ''ur:bytes/aaa'']"
    by (simp only: parts)
  ultimately show ?thesis using single multi counting_library_seq_len by simp
qed

text \<open>
  C9. The claim: \<open>GenerateMultiPartUr\<close> returns exactly
  \<^verbatim>\<open>encoder.seq_len() + numExtraParts\<close> parts. The bound of the loop is computed in
  \<^verbatim>\<open>size_t\<close>: with one fragment and \<open>2\<^sup>6\<^sup>4 - 1\<close> extra parts it wraps to 0 and no part
  is produced.
\<close>

theorem C9_count_wraps_counterexample:
  "seq_len counting_library (UREncoder counting_library [] 100) = 1
   \<and> GenerateMultiPartUr counting_library [] 100 18446744073709551615 = []
   \<and> length (GenerateMultiPartUr counting_library [] 100 18446744073709551615)
       \<noteq> unat (seq_len counting_library (UREncoder counting_library [] 100))
           + unat (18446744073709551615 :: size_t)"
proof -
  have "GenerateMultiPartUr counting_library [] 100 18446744073709551615 = []"
    unfolding GenerateMultiPartUr_def
    by (subst GenerateMultiPartUr_loop.simps) (simp add: counting_library_def)
  then show ?thesis
    by (simp add: counting_library_def)
qed

text \<open>
  C9, as the code has it: for an encoder whose \<^verbatim>\<open>seq_len()\<close> is not changed by
  \<^verbatim>\<open>next_part()\<close>, \<open>GenerateMultiPartUr\<close> returns the parts of
  \<open>(seq_len + numExtraParts) mod 2\<^sup>6\<^sup>4\<close> successive calls of \<^verbatim>\<open>next_part()\<close>, in order;
  that is \<open>seq_len + numExtraParts\<close> parts whenever the sum is below \<open>2\<^sup>6\<^sup>4\<close>.
\<close>

theorem C9_multi_part_count:
  assumes "\<forall>e. seq_len lib (snd (next_part lib e)) = seq_len lib e"
  shows "GenerateMultiPartUr lib message maxFragmentLen numExtra
           = next_parts lib (UREncoder lib message maxFragmentLen)
               ((unat (seq_len lib (UREncoder lib message maxFragmentLen)) + unat numExtra)
                  mod 2 ^ 64)
         \<and> length (GenerateMultiPartUr lib message maxFragmentLen numExtra)
           = (unat (seq_len lib (UREncoder lib message maxFragmentLen)) + unat numExtra)
               mod 2 ^ 64
         \<and> (unat (seq_len lib (UREncoder lib message maxFragmentLen)) + unat numExtra < 2 ^ 64
              \<longrightarrow> length (GenerateMultiPartUr lib message maxFragmentLen numExtra)
                    = unat (seq_len lib (UREncoder lib message maxFragmentLen)) + unat numExtra)"
proof -
  let ?encoder = "UREncoder lib message maxFragmentLen"
  have bound: "unat (seq_len lib ?encoder + numExtra)
                 = (unat (seq_len lib ?encoder) + unat numExtra) mod 2 ^ 64"
    by (simp add: unat_word_ariths)
  have "GenerateMultiPartUr_loop lib numExtra ?encoder 0 []
          = [] @ next_parts lib ?encoder (unat (seq_len lib ?encoder + numExtra))"
    using assms by (intro GenerateMultiPartUr_loop_next_parts) simp_all
  then have parts: "GenerateMultiPartUr lib message maxFragmentLen numExtra
          = next_parts lib ?encoder ((unat (seq_len lib ?encoder) + unat numExtra) mod 2 ^ 64)"
    by (simp add: GenerateMultiPartUr_def bound)
  then show ?thesis
    by (simp add: length_next_parts)
qed

theorem C9_multi_part_count_witness:
  "(\<forall>e. seq_len counting_library (snd (next_part counting_library e))
          = seq_len counting_library e)
   \<and> seq_len counting_library (UREncoder counting_library ''a'' 100) = 2
   \<and> GenerateMultiPartUr counting_library ''a'' 100 1
       = [''ur:bytes/a'', ''ur:bytes/aa'', ''ur:bytes/aaa'']
   \<and> length (GenerateMultiPartUr counting_library ''a'' 100 1) = 3"
proof -
  have n: "seq_len counting_library (UREncoder counting_library ''a'' 100) = 2"
    by (simp add: counting_library_def)
  have parts: "next_parts counting_library (UREncoder counting_library ''a'' 100) 3
                = [''ur:bytes/a'', ''ur:bytes/aa'', ''ur:bytes/aaa'']"
    by (simp add: counting_library_def numeral_3_eq_3)
  from C9_multi_part_count [OF counting_library_seq_len, of "''a''" 100 1] n parts
    counting_library_seq_len
  show ?thesis by simp
qed

text \<open>
  C6. The claim: the display loop wraps the index modulo the length of the image list,
  so it never leaves the list, and ends exactly when \<^verbatim>\<open>cv::waitKey\<close> returns 27. With
  an empty list the first pass through the body reads \<^verbatim>\<open>images[0]\<close> of an empty
  vector.
\<close>

theorem C6_empty_list_counterexample:
  "Present_loop ([] :: string list) [- 1] 0 [] = Fault IndexOutOfRange"
  by (simp add: int_to_size_t_def)

text \<open>
  C6, as the code has it: for a list of at least one and fewer than \<open>2\<^sup>3\<^sup>1\<close> images,
  the loop shows \<^verbatim>\<open>images[0], images[1], ...\<close>, the \<open>j\<close>-th pass showing image
  \<open>j mod length images\<close>, one pass for every key code before the first 27; the index
  stays inside the list; the loop has ended if and only if 27 is among the key codes
  returned, and is waiting for a key otherwise.
\<close>

theorem C6_display_loop:
  assumes "images \<noteq> []" and "length images < 2 ^ 31"
  shows "Present_loop images keys 0 [] =
           (if 27 \<in> set keys then Quit else Blocked)
             (int (length (takeWhile (\<lambda>k. k \<noteq> 27) keys) mod length images))
             (map (\<lambda>j. images ! (j mod length images))
                  [0..<length (takeWhile (\<lambda>k. k \<noteq> 27) keys)])"
  using Present_loop_cycles [of images 0 keys "[]"] assms by simp

theorem C6_display_loop_witness:
  "[''A'', ''B'', ''C''] \<noteq> [] \<and> length [''A'', ''B'', ''C''] < (2::nat) ^ 31
   \<and> Present_loop [''A'', ''B'', ''C''] [- 1, 13, - 1, - 1, 27, 13] 0 []
       = Quit 1 [''A'', ''B'', ''C'', ''A'']
   \<and> Present_loop [''A'', ''B'', ''C''] [- 1, 13] 0 [] = Blocked 2 [''A'', ''B'']"
proof -
  have ne: "[''A'', ''B'', ''C''] \<noteq> []" by simp
  have small: "length [''A'', ''B'', ''C''] < (2::nat) ^ 31" by simp
  from C6_display_loop [OF ne small, of "[- 1, 13, - 1, - 1, 27, 13]"]
  have "Present_loop [''A'', ''B'', ''C''] [- 1, 13, - 1, - 1, 27, 13] 0 []
       = Quit 1 [''A'', ''B'', ''C'', ''A'']"
    by (simp add: upt_rec)
  moreover from C6_display_loop [OF ne small, of "[- 1, 13]"]
  have "Present_loop [''A'', ''B'', ''C''] [- 1, 13] 0 [] = Blocked 2 [''A'', ''B'']"
    by (simp add: upt_rec)
  ultimately show ?thesis by simp
qed

text \<open>
  C3. The claim: \<open>main\<close> parses the arguments, generates the message, wraps it as a
  UR, encodes it, renders the QR images, renders the lifehash image and then composes
  and animates, in this order, each step's output feeding the next. In the run below
  the two lifehash calls come before the encoding and the QR calls, and the encoding
  is given the UR, not the lifehash image.
\<close>

theorem C3_lifehash_before_encoding_counterexample:
  "main plain_libraries counting_library [''qurtest'', ''-l'', ''1''] [27]
     = (Inr (Quit 0 []),
        [Parse [''qurtest'', ''-l'', ''1''],
         Next_data 1,
         EncodeBytes ''m'',
         New_UR ''bytes'' ''#m'',
         Make_from_data ''#m'',
         Lifehash_image ''#m'' 128,
         Encode_UR ''#m'' True 100 0,
         QRcode_encode ''ur:bytes/#m'',
         Qrcode_image ''ur:bytes/#m'' 256,
         Composite 256 (128, ''lifehash of #m'') (256, ''qr of ur:bytes/#m''),
         Animate [(276, ''lifehash of #m over qr of ur:bytes/#m'')] 4])
   \<and> snd (main plain_libraries counting_library [''qurtest'', ''-l'', ''1''] [27])
     \<noteq> [Parse [''qurtest'', ''-l'', ''1''],
         Next_data 1,
         EncodeBytes ''m'',
         New_UR ''bytes'' ''#m'',
         Encode_UR ''#m'' True 100 0,
         QRcode_encode ''ur:bytes/#m'',
         Qrcode_image ''ur:bytes/#m'' 256,
         Make_from_data ''#m'',
         Lifehash_image ''#m'' 128,
         Composite 256 (128, ''lifehash of #m'') (256, ''qr of ur:bytes/#m''),
         Animate [(276, ''lifehash of #m over qr of ur:bytes/#m'')] 4]"
proof -
  let ?args = "default_CommandLineArguments\<lparr>messageLength := 1\<rparr>"
  have parse: "ParseCommandLineArguments [''qurtest'', ''-l'', ''1''] = Returned ?args"
    by (simp add: parse_eval)
  have urs: "CreateUrs counting_library ''#m'' ?args = [''ur:bytes/#m'']"
    by (simp add: CreateUrs_def GenerateSinglePartUr_def counting_library_def
        default_CommandLineArguments_def)
  have "main plain_libraries counting_library [''qurtest'', ''-l'', ''1''] [27]
     = (Inr (Present_loop [(276, ''lifehash of #m over qr of ur:bytes/#m'')] [27] 0 []),
        [Parse [''qurtest'', ''-l'', ''1''],
         Next_data (messageLength ?args),
         EncodeBytes ''m'',
         New_UR ''bytes'' ''#m'',
         Make_from_data (cbor plain_libraries ''#m''),
         Lifehash_image ''#m'' (lifeHashImageSize ?args),
         Encode_UR ''#m'' (isSinglePart ?args) (maxFragmentLength ?args) (numExtraParts ?args)]
        @ map QRcode_encode (CreateUrs counting_library ''#m'' ?args)
        @ map (\<lambda>q. Qrcode_image q (qrSize ?args)) [''ur:bytes/#m'']
        @ map (Composite (foldl (\<lambda>w img. max (cols plain_libraries img) w)
                            (cols plain_libraries (128, ''lifehash of #m''))
                            [(256, ''qr of ur:bytes/#m'')])
                 (128, ''lifehash of #m''))
            [(256, ''qr of ur:bytes/#m'')]
        @ [Animate [(276, ''lifehash of #m over qr of ur:bytes/#m'')] (fps ?args)])"
    by (rule main_run [OF parse])
       (simp_all add: urs, simp_all add: plain_libraries_def default_CommandLineArguments_def)
  then have "main plain_libraries counting_library [''qurtest'', ''-l'', ''1''] [27]
     = (Inr (Quit 0 []),
        [Parse [''qurtest'', ''-l'', ''1''],
         Next_data 1,
         EncodeBytes ''m'',
         New_UR ''bytes'' ''#m'',
         Make_from_data ''#m'',
         Lifehash_image ''#m'' 128,
         Encode_UR ''#m'' True 100 0,
         QRcode_encode ''ur:bytes/#m'',
         Qrcode_image ''ur:bytes/#m'' 256,
         Composite 256 (128, ''lifehash of #m'') (256, ''qr of ur:bytes/#m''),
         Animate [(276, ''lifehash of #m over qr of ur:bytes/#m'')] 4])"
    by (simp add: urs, simp add: plain_libraries_def default_CommandLineArguments_def)
  then show ?thesis by simp
qed

text \<open>
  C3, as the code has it: when \<open>ParseCommandLineArguments\<close> returns and every library
  call returns a result, \<open>main\<close> makes exactly these calls, in this order: it parses
  the arguments; generates the random message of \<open>messageLength\<close> bytes; wraps it as
  a UR (the CBOR encoding of the message, then the UR of type \<open>bytes\<close> of that
  encoding); renders the lifehash image from the CBOR bytes of the UR; encodes the same
  UR as single-part or multi-part strings; encodes every string as a QR code and
  renders an image of every QR code; composes every QR image with the lifehash image;
  and runs the display loop on the composed images.
\<close>

theorem C3_pipeline_order:
  assumes "ParseCommandLineArguments argv = Returned args"
    and "next_data env (messageLength args) = Some message"
    and "encodeBytes env message = Some cbor_bytes"
    and "new_UR env ''bytes'' cbor_bytes = Some ur"
    and "make_from_data env (cbor env ur) = Some lifeHash"
    and "lifehash_image env lifeHash (lifeHashImageSize args) = Some lifeHashImage"
    and "map (QRcode_encodeString8bit env) (CreateUrs lib ur args) = map Some qurs"
    and "map (\<lambda>q. qrcode_image env q (qrSize args)) qurs = map Some qurImages"
    and "map (composite env (foldl (\<lambda>w img. max (cols env img) w)
                               (cols env lifeHashImage) qurImages) lifeHashImage) qurImages
           = map Some images"
  shows "main env lib argv keys
           = (Inr (Present_loop images keys 0 []),
              [Parse argv,
               Next_data (messageLength args),
               EncodeBytes message,
               New_UR ''bytes'' cbor_bytes,
               Make_from_data (cbor env ur),
               Lifehash_image lifeHash (lifeHashImageSize args),
               Encode_UR ur (isSinglePart args) (maxFragmentLength args) (numExtraParts args)]
              @ map QRcode_encode (CreateUrs lib ur args)
              @ map (\<lambda>q. Qrcode_image q (qrSize args)) qurs
              @ map (Composite (foldl (\<lambda>w img. max (cols env img) w)
                                  (cols env lifeHashImage) qurImages) lifeHashImage) qurImages
              @ [Animate images (fps args)])"
  using assms by (rule main_run)

theorem C3_pipeline_order_witness:
  "ParseCommandLineArguments [''qurtest'', ''-m'', ''-l'', ''1'', ''-f'', ''1'']
     = Returned (default_CommandLineArguments
                   \<lparr>isSinglePart := False, messageLength := 1, maxFragmentLength := 1\<rparr>)
   \<and> CreateUrs counting_library ''#m''
         (default_CommandLineArguments
            \<lparr>isSinglePart := False, messageLength := 1, maxFragmentLength := 1\<rparr>)
       = [''ur:bytes/a'', ''ur:bytes/aa'', ''ur:bytes/aaa'']
   \<and> main plain_libraries counting_library
         [''qurtest'', ''-m'', ''-l'', ''1'', ''-f'', ''1''] [- 1, 27]
     = (Inr (Quit 1 [(276, ''lifehash of #m over qr of ur:bytes/a'')]),
        [Parse [''qurtest'', ''-m'', ''-l'', ''1'', ''-f'', ''1''],
         Next_data 1,
         EncodeBytes ''m'',
         New_UR ''bytes'' ''#m'',
         Make_from_data ''#m'',
         Lifehash_image ''#m'' 128,
         Encode_UR ''#m'' False 1 0,
         QRcode_encode ''ur:bytes/a'',
         QRcode_encode ''ur:bytes/aa'',
         QRcode_encode ''ur:bytes/aaa'',
         Qrcode_image ''ur:bytes/a'' 256,
         Qrcode_image ''ur:bytes/aa'' 256,
         Qrcode_image ''ur:bytes/aaa'' 256,
         Composite 256 (128, ''lifehash of #m'') (256, ''qr of ur:bytes/a''),
         Composite 256 (128, ''lifehash of #m'') (256, ''qr of ur:bytes/aa''),
         Composite 256 (128, ''lifehash of #m'') (256, ''qr of ur:bytes/aaa''),
         Animate [(276, ''lifehash of #m over qr of ur:bytes/a''),
                  (276, ''lifehash of #m over qr of ur:bytes/aa''),
                  (276, ''lifehash of #m over qr of ur:bytes/aaa'')] 4])"
proof -
  let ?args = "default_CommandLineArguments
                 \<lparr>isSinglePart := False, messageLength := 1, maxFragmentLength := 1\<rparr>"
  let ?argv = "[''qurtest'', ''-m'', ''-l'', ''1'', ''-f'', ''1'']"
  have parse: "ParseCommandLineArguments ?argv = Returned ?args"
    by (simp add: parse_eval)
  have "GenerateMultiPartUr_loop counting_library 0 (UREncoder counting_library ''#m'' 1) 0 []
          = [] @ next_parts counting_library (UREncoder counting_library ''#m'' 1)
                   (Suc (Suc (Suc 0)))"
    by (rule GenerateMultiPartUr_loop_next_parts)
       (simp_all add: counting_library_def split: prod.splits)
  then have urs: "CreateUrs counting_library ''#m'' ?args
                    = [''ur:bytes/a'', ''ur:bytes/aa'', ''ur:bytes/aaa'']"
    by (simp add: CreateUrs_def GenerateMultiPartUr_def default_CommandLineArguments_def,
        simp add: counting_library_def)
  have "main plain_libraries counting_library ?argv [- 1, 27]
     = (Inr (Present_loop [(276, ''lifehash of #m over qr of ur:bytes/a''),
                           (276, ''lifehash of #m over qr of ur:bytes/aa''),
                           (276, ''lifehash of #m over qr of ur:bytes/aaa'')] [- 1, 27] 0 []),
        [Parse ?argv,
         Next_data (messageLength ?args),
         EncodeBytes ''m'',
         New_UR ''bytes'' ''#m'',
         Make_from_data (cbor plain_libraries ''#m''),
         Lifehash_image ''#m'' (lifeHashImageSize ?args),
         Encode_UR ''#m'' (isSinglePart ?args) (maxFragmentLength ?args) (numExtraParts ?args)]
        @ map QRcode_encode (CreateUrs counting_library ''#m'' ?args)
        @ map (\<lambda>q. Qrcode_image q (qrSize ?args))
            [''ur:bytes/a'', ''ur:bytes/aa'', ''ur:bytes/aaa'']
        @ map (Composite (foldl (\<lambda>w img. max (cols plain_libraries img) w)
                            (cols plain_libraries (128, ''lifehash of #m''))
                            [(256, ''qr of ur:bytes/a''), (256, ''qr of ur:bytes/aa''),
                             (256, ''qr of ur:bytes/aaa'')])
                 (128, ''lifehash of #m''))
            [(256, ''qr of ur:bytes/a''), (256, ''qr of ur:bytes/aa''),
             (256, ''qr of ur:bytes/aaa'')]
        @ [Animate [(276, ''lifehash of #m over qr of ur:bytes/a''),
                    (276, ''lifehash of #m over qr of ur:bytes/aa''),
                    (276, ''lifehash of #m over qr of ur:bytes/aaa'')] (fps ?args)])"
    by (rule C3_pipeline_order [OF parse])
       (simp_all add: urs, simp_all add: plain_libraries_def default_CommandLineArguments_def)
  then have "main plain_libraries counting_library ?argv [- 1, 27]
     = (Inr (Quit 1 [(276, ''lifehash of #m over qr of ur:bytes/a'')]),
        [Parse ?argv,
         Next_data 1,
         EncodeBytes ''m'',
         New_UR ''bytes'' ''#m'',
         Make_from_data ''#m'',
         Lifehash_image ''#m'' 128,
         Encode_UR ''#m'' False 1 0,
         QRcode_encode ''ur:bytes/a'',
         QRcode_encode ''ur:bytes/aa'',
         QRcode_encode ''ur:bytes/aaa'',
         Qrcode_image ''ur:bytes/a'' 256,
         Qrcode_image ''ur:bytes/aa'' 256,
         Qrcode_image ''ur:bytes/aaa'' 256,
         Composite 256 (128, ''lifehash of #m'') (256, ''qr of ur:bytes/a''),
         Composite 256 (128, ''lifehash of #m'') (256, ''qr of ur:bytes/aa''),
         Composite 256 (128, ''lifehash of #m'') (256, ''qr of ur:bytes/aaa''),
         Animate [(276, ''lifehash of #m over qr of ur:bytes/a''),
                  (276, ''lifehash of #m over qr of ur:bytes/aa''),
                  (276, ''lifehash of #m over qr of ur:bytes/aaa'')] 4])"
    by (simp add: urs, simp add: plain_libraries_def default_CommandLineArguments_def
        int_to_size_t_def size_t_to_int_def INT_MAX_def)
  with parse urs show ?thesis by simp
qed

end
